theory Spec2Isabelle
  imports Main "HOL-Library.Word"
begin

section \<open>Frames\<close>

text \<open>
  A Go \<^verbatim>\<open>[]byte\<close> is a list of 8-bit words. A Go string is a sequence of bytes as
  well; \<open>bytesOf\<close> is the conversion \<^verbatim>\<open>buf.WriteString\<close> performs.
\<close>

type_synonym byte = "8 word"

definition bytesOf :: "string \<Rightarrow> byte list" where
  "bytesOf s = map of_char s"

text \<open>
  \<^verbatim>\<open>TextFrame\<close> is declared outside \<^verbatim>\<open>tag.go\<close>, which uses its two fields:
  \<^verbatim>\<open>TextFrame{Encoding: ENUTF8, Text: title}\<close> and \<^verbatim>\<open>f.Text\<close>. The type of an encoding
  is the type parameter \<open>'e\<close>, and its Go zero value is the \<open>0\<close> of \<open>'e\<close>.
\<close>

record 'e TextFrame =
  Encoding :: 'e
  Text :: string

text \<open>
  A value of the interface type \<^verbatim>\<open>Framer\<close>, whose one method \<^verbatim>\<open>tag.go\<close> calls is
  \<^verbatim>\<open>Body()\<close>: the nil interface, a \<^verbatim>\<open>TextFrame\<close>, or a value of some other concrete
  frame type (\<open>'a\<close>: pictures, comments, ...).
\<close>

datatype ('e, 'a) Framer = NilFramer | TextFramer "'e TextFrame" | OtherFramer 'a

text \<open>What can abort the program: the explicit panic of \<^verbatim>\<open>formFrame\<close>, a method
  call through a nil interface, and a failed unchecked type assertion.\<close>

datatype panic = BlankID | NilDereference | TypeAssertion

section \<open>Sequences\<close>

text \<open>
  Modelled from the spec: the \<^verbatim>\<open>sequencer\<close> interface, its three implementations
  and their constructors \<^verbatim>\<open>newPictureSequence\<close>, \<^verbatim>\<open>newCommentSequence\<close> and
  \<^verbatim>\<open>newUSLFSequence\<close> are not in \<^verbatim>\<open>tag.go\<close>. The spec (4.2) asks for one generic
  sequence, parameterised only by the identifier kind it is attached to: an ordered list
  of frames, created empty, to which \<^verbatim>\<open>AddFrame\<close> appends and which \<^verbatim>\<open>Frames\<close>
  returns in insertion order.
\<close>

datatype sequenceKind = PictureSequence | CommentSequence | USLFSequence

datatype ('e, 'a) sequencer = Sequence sequenceKind "('e, 'a) Framer list"

text \<open>Modelled from the spec: the three constructors, missing from \<^verbatim>\<open>tag.go\<close>, each
  return an empty sequence of their kind.\<close>

definition newPictureSequence :: "('e, 'a) sequencer" where
  "newPictureSequence = Sequence PictureSequence []"

definition newCommentSequence :: "('e, 'a) sequencer" where
  "newCommentSequence = Sequence CommentSequence []"

definition newUSLFSequence :: "('e, 'a) sequencer" where
  "newUSLFSequence = Sequence USLFSequence []"

text \<open>Modelled from the spec: the method \<^verbatim>\<open>AddFrame\<close> of a sequence, missing from
  \<^verbatim>\<open>tag.go\<close>, appends to the ordered list and replaces nothing.\<close>

fun sequencer_AddFrame :: "('e, 'a) sequencer \<Rightarrow> ('e, 'a) Framer \<Rightarrow> ('e, 'a) sequencer" where
  "sequencer_AddFrame (Sequence k fs) f = Sequence k (fs @ [f])"

text \<open>Modelled from the spec: the method \<^verbatim>\<open>Frames\<close> of a sequence, missing from
  \<^verbatim>\<open>tag.go\<close>, returns the frames in insertion order.\<close>

fun sequencer_Frames :: "('e, 'a) sequencer \<Rightarrow> ('e, 'a) Framer list" where
  "sequencer_Frames (Sequence k fs) = fs"

section \<open>The tag\<close>

text \<open>
  Modelled from the spec: \<^verbatim>\<open>frameCoordinates\<close> is declared outside \<^verbatim>\<open>tag.go\<close>; the
  spec (3) describes it as a pair of a start offset and a length into the file.
\<close>

type_synonym frameCoordinates = "int \<times> int"

text \<open>
  An \<^verbatim>\<open>*os.File\<close>: the name it was opened or created under (what \<^verbatim>\<open>Name()\<close>
  returns), the file it is a handle on, the offset of the next read or write, and whether
  it has been closed.
\<close>

record File =
  fileName :: string
  fileNode :: nat
  fileOffset :: nat
  fileClosed :: bool

text \<open>
  \<^verbatim>\<open>type Tag struct\<close>. A Go map is a partial function; a map of this record never
  holds a nil \<^verbatim>\<open>sequencer\<close>, since the only store into \<^verbatim>\<open>sequences\<close> is the one of
  \<^verbatim>\<open>checkExistenceOfSequence\<close>, of a freshly constructed sequence. A \<^verbatim>\<open>Framer\<close> stored
  in \<^verbatim>\<open>frames\<close> may be nil: it is whatever the caller of \<^verbatim>\<open>AddFrame\<close> passed.
\<close>

record ('e, 'a) Tag =
  framesCoords :: "string \<rightharpoonup> frameCoordinates list"
  frames :: "string \<rightharpoonup> ('e, 'a) Framer"
  sequences :: "string \<rightharpoonup> ('e, 'a) sequencer"
  ids :: "string \<rightharpoonup> string"
  file' :: File
  originalSize :: int

text \<open>\<^verbatim>\<open>t.ids[description]\<close>: a missing key reads as the zero value, the empty string.\<close>

definition ID :: "('e, 'a) Tag \<Rightarrow> string \<Rightarrow> string" where
  "ID t description = (case ids t description of None \<Rightarrow> [] | Some i \<Rightarrow> i)"

definition checkExistenceOfSequence ::
  "('e, 'a) Tag \<Rightarrow> string \<Rightarrow> ('e, 'a) sequencer \<Rightarrow> ('e, 'a) Tag" where
  "checkExistenceOfSequence t i newSequence =
     (if sequences t i = None then t\<lparr>sequences := (sequences t)(i \<mapsto> newSequence)\<rparr> else t)"

text \<open>\<^verbatim>\<open>t.sequences[id].AddFrame(f)\<close>: a method call on the map's value, which is the
  nil interface when the key is missing.\<close>

definition addFrameToSequence ::
  "('e, 'a) Tag \<Rightarrow> string \<Rightarrow> ('e, 'a) Framer \<Rightarrow> panic + ('e, 'a) Tag" where
  "addFrameToSequence t i f =
     (case sequences t i of
        None \<Rightarrow> Inl NilDereference
      | Some s \<Rightarrow> Inr (t\<lparr>sequences := (sequences t)(i \<mapsto> sequencer_AddFrame s f)\<rparr>))"

definition addAttachedPicture :: "('e, 'a) Tag \<Rightarrow> ('e, 'a) Framer \<Rightarrow> panic + ('e, 'a) Tag" where
  "addAttachedPicture t f =
     (let i = ID t ''Attached picture''
      in addFrameToSequence (checkExistenceOfSequence t i newPictureSequence) i f)"

definition addCommentFrame :: "('e, 'a) Tag \<Rightarrow> ('e, 'a) Framer \<Rightarrow> panic + ('e, 'a) Tag" where
  "addCommentFrame t f =
     (let i = ID t ''Comments''
      in addFrameToSequence (checkExistenceOfSequence t i newCommentSequence) i f)"

definition addUnsynchronisedLyricsFrame ::
  "('e, 'a) Tag \<Rightarrow> ('e, 'a) Framer \<Rightarrow> panic + ('e, 'a) Tag" where
  "addUnsynchronisedLyricsFrame t f =
     (let i = ID t ''Unsynchronised lyrics/text transcription''
      in addFrameToSequence (checkExistenceOfSequence t i newUSLFSequence) i f)"

text \<open>The \<^verbatim>\<open>switch\<close> takes the first case that matches; \<open>None\<close> is the nil function.\<close>

definition findSpecificAddFunction ::
  "('e, 'a) Tag \<Rightarrow> string \<Rightarrow> (('e, 'a) Tag \<Rightarrow> ('e, 'a) Framer \<Rightarrow> panic + ('e, 'a) Tag) option" where
  "findSpecificAddFunction t i =
     (if i = ID t ''Attached picture'' then Some addAttachedPicture
      else if i = ID t ''Comments'' then Some addCommentFrame
      else if i = ID t ''Unsynchronised lyrics/text transcription''
        then Some addUnsynchronisedLyricsFrame
      else None)"

definition AddFrame ::
  "('e, 'a) Tag \<Rightarrow> string \<Rightarrow> ('e, 'a) Framer \<Rightarrow> panic + ('e, 'a) Tag" where
  "AddFrame t i f =
     (case findSpecificAddFunction t i of
        Some addFunc \<Rightarrow> addFunc t f
      | None \<Rightarrow> Inr (t\<lparr>frames := (frames t)(i \<mapsto> f)\<rparr>))"

section \<open>Collaborators\<close>

text \<open>
  What \<^verbatim>\<open>tag.go\<close> calls and does not define, taken as parameters: the size codec
  \<^verbatim>\<open>util.FormSize\<close>, the header formatter \<^verbatim>\<open>formTagHeader\<close>, the method \<^verbatim>\<open>Body\<close>
  of a non-nil frame, the decoder \<open>readFrame\<close> that turns one pending coordinate of an
  identifier into a frame, and the constant \<^verbatim>\<open>ENUTF8\<close>.
\<close>

record ('e, 'a) collaborators =
  FormSize :: "int \<Rightarrow> byte list"
  formTagHeader :: "byte list \<Rightarrow> byte list"
  Body :: "('e, 'a) Framer \<Rightarrow> byte list"
  readFrame :: "string \<Rightarrow> frameCoordinates \<Rightarrow> ('e, 'a) Framer"
  ENUTF8 :: 'e

text \<open>
  Modelled from the spec: \<^verbatim>\<open>bytesbufferpool.Get\<close> is not in \<^verbatim>\<open>tag.go\<close>. The spec (5, 9)
  gives pooling no behaviour of its own: a buffer got from the pool is a fresh, empty
  buffer.
\<close>

definition bytesbufferpool_Get :: "byte list" where
  "bytesbufferpool_Get = []"

section \<open>Lazy materialization\<close>

text \<open>
  The coordinate parser, \<^verbatim>\<open>parseFramesCoordsWithID\<close> and \<^verbatim>\<open>parseAllFramesCoords\<close>, is
  not in \<^verbatim>\<open>tag.go\<close>. The spec (3, 4.1, 4.3) has the pending coordinates of an identifier
  parsed into \<^verbatim>\<open>frames\<close> or \<^verbatim>\<open>sequences\<close>, through \<^verbatim>\<open>AddFrame\<close> as the single
  mutation entry point and in the order of the coordinates, and the identifier's entry
  of \<^verbatim>\<open>framesCoords\<close> cleared afterwards; \<^verbatim>\<open>parseAllFramesCoords\<close> does so for every
  pending identifier. The list \<open>pending\<close> is the order in which the \<^verbatim>\<open>range\<close> over
  \<^verbatim>\<open>framesCoords\<close> visits its keys.
\<close>

text \<open>Modelled from the spec: the loop of \<^verbatim>\<open>parseFramesCoordsWithID\<close> over the
  coordinates of one identifier, each decoded and passed to \<^verbatim>\<open>AddFrame\<close>.\<close>

fun parseFrames ::
  "('e, 'a) collaborators \<Rightarrow> ('e, 'a) Tag \<Rightarrow> string \<Rightarrow> frameCoordinates list
    \<Rightarrow> panic + ('e, 'a) Tag" where
  "parseFrames x t i [] = Inr t"
| "parseFrames x t i (fc # fcs) =
     (case AddFrame t i (readFrame x i fc) of
        Inl p \<Rightarrow> Inl p
      | Inr t' \<Rightarrow> parseFrames x t' i fcs)"

text \<open>Modelled from the spec: \<^verbatim>\<open>parseFramesCoordsWithID\<close>, missing from \<^verbatim>\<open>tag.go\<close>,
  parses the coordinates pending under the identifier and clears its entry.\<close>

definition parseFramesCoordsWithID ::
  "('e, 'a) collaborators \<Rightarrow> ('e, 'a) Tag \<Rightarrow> string \<Rightarrow> panic + ('e, 'a) Tag" where
  "parseFramesCoordsWithID x t i =
     (case framesCoords t i of
        None \<Rightarrow> Inr t
      | Some fcs \<Rightarrow>
          (case parseFrames x t i fcs of
             Inl p \<Rightarrow> Inl p
           | Inr t' \<Rightarrow> Inr (t'\<lparr>framesCoords := (framesCoords t')(i := None)\<rparr>)))"

text \<open>Modelled from the spec: \<^verbatim>\<open>parseAllFramesCoords\<close>, missing from \<^verbatim>\<open>tag.go\<close>,
  does so for each identifier of \<open>pending\<close> in turn.\<close>

fun parseAllFramesCoords ::
  "('e, 'a) collaborators \<Rightarrow> string list \<Rightarrow> ('e, 'a) Tag \<Rightarrow> panic + ('e, 'a) Tag" where
  "parseAllFramesCoords x [] t = Inr t"
| "parseAllFramesCoords x (i # pending) t =
     (case parseFramesCoordsWithID x t i of
        Inl p \<Rightarrow> Inl p
      | Inr t' \<Rightarrow> parseAllFramesCoords x pending t')"

section \<open>Retrieval\<close>

text \<open>
  The getters mutate the tag when they parse, so each returns its result together with
  the tag afterwards. The receivers declared by value (\<^verbatim>\<open>func (t Tag)\<close>) copy the
  struct but share its maps, which are all that parsing changes.
\<close>

definition AllFrames ::
  "('e, 'a) collaborators \<Rightarrow> string list \<Rightarrow> ('e, 'a) Tag
    \<Rightarrow> panic + ((string \<rightharpoonup> ('e, 'a) Framer list) \<times> ('e, 'a) Tag)" where
  "AllFrames x pending t =
     (case parseAllFramesCoords x pending t of
        Inl p \<Rightarrow> Inl p
      | Inr t1 \<Rightarrow>
          Inr (\<lambda>i. case frames t1 i of
                 Some f \<Rightarrow>
                   (case sequences t1 i of
                      Some s \<Rightarrow> Some (f # sequencer_Frames s)
                    | None \<Rightarrow> Some [f])
               | None \<Rightarrow>
                   (case sequences t1 i of
                      Some s \<Rightarrow> Some (sequencer_Frames s)
                    | None \<Rightarrow> None),
               t1))"

definition GetFrames ::
  "('e, 'a) collaborators \<Rightarrow> ('e, 'a) Tag \<Rightarrow> string
    \<Rightarrow> panic + (('e, 'a) Framer list \<times> ('e, 'a) Tag)" where
  "GetFrames x t i =
     (case (if framesCoords t i \<noteq> None then parseFramesCoordsWithID x t i else Inr t) of
        Inl p \<Rightarrow> Inl p
      | Inr t1 \<Rightarrow>
          (case frames t1 i of
             Some f \<Rightarrow> Inr ([f], t1)
           | None \<Rightarrow>
               (case sequences t1 i of
                  Some s \<Rightarrow> Inr (sequencer_Frames s, t1)
                | None \<Rightarrow> Inr ([], t1))))"

definition GetLastFrame ::
  "('e, 'a) collaborators \<Rightarrow> ('e, 'a) Tag \<Rightarrow> string
    \<Rightarrow> panic + (('e, 'a) Framer \<times> ('e, 'a) Tag)" where
  "GetLastFrame x t i =
     (case GetFrames x t i of
        Inl p \<Rightarrow> Inl p
      | Inr (fs, t1) \<Rightarrow>
          if length fs = 0 then Inr (NilFramer, t1)
          else Inr (fs ! (length fs - 1), t1))"

definition GetTextFrame ::
  "('e::zero, 'a) collaborators \<Rightarrow> ('e, 'a) Tag \<Rightarrow> string
    \<Rightarrow> panic + ('e TextFrame \<times> ('e, 'a) Tag)" where
  "GetTextFrame x t i =
     (case GetLastFrame x t i of
        Inl p \<Rightarrow> Inl p
      | Inr (f, t1) \<Rightarrow>
          (case f of
             NilFramer \<Rightarrow> Inr (\<lparr>Encoding = 0, Text = []\<rparr>, t1)
           | TextFramer tf \<Rightarrow> Inr (tf, t1)
           | OtherFramer a \<Rightarrow> Inl TypeAssertion))"

section \<open>Typed accessors\<close>

definition textOf ::
  "panic + ('e TextFrame \<times> ('e, 'a) Tag) \<Rightarrow> panic + (string \<times> ('e, 'a) Tag)" where
  "textOf r = (case r of Inl p \<Rightarrow> Inl p | Inr (f, t1) \<Rightarrow> Inr (Text f, t1))"

definition Title ::
  "('e::zero, 'a) collaborators \<Rightarrow> ('e, 'a) Tag \<Rightarrow> panic + (string \<times> ('e, 'a) Tag)" where
  "Title x t = textOf (GetTextFrame x t (ID t ''Title/Songname/Content description''))"

definition SetTitle ::
  "('e, 'a) collaborators \<Rightarrow> ('e, 'a) Tag \<Rightarrow> string \<Rightarrow> panic + ('e, 'a) Tag" where
  "SetTitle x t title =
     AddFrame t (ID t ''Title/Songname/Content description'')
       (TextFramer \<lparr>Encoding = ENUTF8 x, Text = title\<rparr>)"

definition Artist ::
  "('e::zero, 'a) collaborators \<Rightarrow> ('e, 'a) Tag \<Rightarrow> panic + (string \<times> ('e, 'a) Tag)" where
  "Artist x t =
     textOf (GetTextFrame x t (ID t ''Lead artist/Lead performer/Soloist/Performing group''))"

definition SetArtist ::
  "('e, 'a) collaborators \<Rightarrow> ('e, 'a) Tag \<Rightarrow> string \<Rightarrow> panic + ('e, 'a) Tag" where
  "SetArtist x t artist =
     AddFrame t (ID t ''Lead artist/Lead performer/Soloist/Performing group'')
       (TextFramer \<lparr>Encoding = ENUTF8 x, Text = artist\<rparr>)"

definition Album ::
  "('e::zero, 'a) collaborators \<Rightarrow> ('e, 'a) Tag \<Rightarrow> panic + (string \<times> ('e, 'a) Tag)" where
  "Album x t = textOf (GetTextFrame x t (ID t ''Album/Movie/Show title''))"

definition SetAlbum ::
  "('e, 'a) collaborators \<Rightarrow> ('e, 'a) Tag \<Rightarrow> string \<Rightarrow> panic + ('e, 'a) Tag" where
  "SetAlbum x t album =
     AddFrame t (ID t ''Album/Movie/Show title'')
       (TextFramer \<lparr>Encoding = ENUTF8 x, Text = album\<rparr>)"

definition Year ::
  "('e::zero, 'a) collaborators \<Rightarrow> ('e, 'a) Tag \<Rightarrow> panic + (string \<times> ('e, 'a) Tag)" where
  "Year x t = textOf (GetTextFrame x t (ID t ''Recording time''))"

definition SetYear ::
  "('e, 'a) collaborators \<Rightarrow> ('e, 'a) Tag \<Rightarrow> string \<Rightarrow> panic + ('e, 'a) Tag" where
  "SetYear x t year =
     AddFrame t (ID t ''Recording time'') (TextFramer \<lparr>Encoding = ENUTF8 x, Text = year\<rparr>)"

definition Genre ::
  "('e::zero, 'a) collaborators \<Rightarrow> ('e, 'a) Tag \<Rightarrow> panic + (string \<times> ('e, 'a) Tag)" where
  "Genre x t = textOf (GetTextFrame x t (ID t ''Content type''))"

definition SetGenre ::
  "('e, 'a) collaborators \<Rightarrow> ('e, 'a) Tag \<Rightarrow> string \<Rightarrow> panic + ('e, 'a) Tag" where
  "SetGenre x t genre =
     AddFrame t (ID t ''Content type'') (TextFramer \<lparr>Encoding = ENUTF8 x, Text = genre\<rparr>)"

section \<open>Frame serialization\<close>

definition writeFrameHeader ::
  "('e, 'a) collaborators \<Rightarrow> byte list \<Rightarrow> string \<Rightarrow> int \<Rightarrow> byte list" where
  "writeFrameHeader x buf i frameSize = buf @ bytesOf i @ FormSize x frameSize @ [0, 0]"

text \<open>\<^verbatim>\<open>frame.Body()\<close> on the nil interface is a nil dereference.\<close>

definition formFrame ::
  "('e, 'a) collaborators \<Rightarrow> string \<Rightarrow> ('e, 'a) Framer \<Rightarrow> panic + byte list" where
  "formFrame x i frame =
     (if i = [] then Inl BlankID
      else if frame = NilFramer then Inl NilDereference
      else
        (let frameBuffer = bytesbufferpool_Get;
             frameBody = Body x frame;
             frameBuffer = writeFrameHeader x frameBuffer i (int (length frameBody))
         in Inr (frameBuffer @ frameBody)))"

text \<open>
  \<^verbatim>\<open>writeFrames\<close>: the outer loop ranges over the map \<^verbatim>\<open>AllFrames\<close> returned, visiting
  its keys in the order \<open>order\<close>; the inner loop writes the frames of one identifier to
  the buffer \<open>w\<close>.
\<close>

fun writeFramesOf ::
  "('e, 'a) collaborators \<Rightarrow> string \<Rightarrow> ('e, 'a) Framer list \<Rightarrow> byte list
    \<Rightarrow> panic + byte list" where
  "writeFramesOf x i [] w = Inr w"
| "writeFramesOf x i (f # fs) w =
     (case formFrame x i f of
        Inl p \<Rightarrow> Inl p
      | Inr b \<Rightarrow> writeFramesOf x i fs (w @ b))"

fun writeFramesRange ::
  "('e, 'a) collaborators \<Rightarrow> (string \<rightharpoonup> ('e, 'a) Framer list) \<Rightarrow> string list \<Rightarrow> byte list
    \<Rightarrow> panic + byte list" where
  "writeFramesRange x m [] w = Inr w"
| "writeFramesRange x m (i # order) w =
     (case m i of
        None \<Rightarrow> writeFramesRange x m order w
      | Some fs \<Rightarrow>
          (case writeFramesOf x i fs w of
             Inl p \<Rightarrow> Inl p
           | Inr w' \<Rightarrow> writeFramesRange x m order w'))"

definition writeFrames ::
  "('e, 'a) collaborators \<Rightarrow> string list \<Rightarrow> string list \<Rightarrow> ('e, 'a) Tag \<Rightarrow> byte list
    \<Rightarrow> panic + (byte list \<times> ('e, 'a) Tag)" where
  "writeFrames x pending order t w =
     (case AllFrames x pending t of
        Inl p \<Rightarrow> Inl p
      | Inr (m, t1) \<Rightarrow>
          (case writeFramesRange x m order w of
             Inl p \<Rightarrow> Inl p
           | Inr w' \<Rightarrow> Inr (w', t1)))"

definition formAllFrames ::
  "('e, 'a) collaborators \<Rightarrow> string list \<Rightarrow> string list \<Rightarrow> ('e, 'a) Tag
    \<Rightarrow> panic + (byte list \<times> ('e, 'a) Tag)" where
  "formAllFrames x pending order t = writeFrames x pending order t bytesbufferpool_Get"

section \<open>The filesystem\<close>

text \<open>
  \<^verbatim>\<open>Save\<close> reaches the disk through \<^verbatim>\<open>io/ioutil\<close>, \<^verbatim>\<open>io\<close> and \<^verbatim>\<open>os\<close>. The disk is a
  table of files (contents and permission mode), numbered in the order of their creation,
  and a directory that maps a path to the number of the file it names. An open file is a
  handle on a numbered file, so a rename changes what a path names and leaves handles
  alone.
\<close>

record fileData =
  content :: "byte list"
  mode :: "32 word"

record filesystem =
  paths :: "string \<rightharpoonup> nat"
  inodes :: "fileData list"

definition fileAt :: "filesystem \<Rightarrow> string \<Rightarrow> fileData option" where
  "fileAt fs p =
     (case paths fs p of
        None \<Rightarrow> None
      | Some n \<Rightarrow> if n < length (inodes fs) then Some (inodes fs ! n) else None)"

text \<open>
  The calls \<^verbatim>\<open>Save\<close> makes, in the order it makes them, and what the operating system
  decides during one run: which calls fail and with which error, how many bytes of a
  failing write or copy still reached the file, and the name of the temporary file.
\<close>

datatype step =
  CreateTemp | WriteHeader | WriteFrames | SeekOriginal | CopyPayload | StatOriginal
  | ChmodNew | RenameNew

type_synonym error = string

record environment =
  failure :: "step \<Rightarrow> error option"
  written :: "step \<Rightarrow> nat"
  tempName :: string

text \<open>\<^verbatim>\<open>ioutil.TempFile\<close> creates a new, empty file with mode 0600, and fails rather than
  open a path that exists.\<close>

definition TempFile :: "environment \<Rightarrow> filesystem \<Rightarrow> error + (File \<times> filesystem)" where
  "TempFile e fs =
     (case failure e CreateTemp of
        Some err \<Rightarrow> Inl err
      | None \<Rightarrow>
          if paths fs (tempName e) \<noteq> None then Inl ''file exists''
          else Inr (\<lparr>fileName = tempName e, fileNode = length (inodes fs), fileOffset = 0,
                      fileClosed = False\<rparr>,
                    fs\<lparr>paths := (paths fs)(tempName e \<mapsto> length (inodes fs)),
                       inodes := inodes fs @ [\<lparr>content = [], mode = 384\<rparr>]\<rparr>))"

text \<open>Writing \<open>b\<close> at offset \<open>off\<close> of a file: over what is there, padding with zeros
  when the offset lies beyond the end.\<close>

definition writeAt :: "byte list \<Rightarrow> nat \<Rightarrow> byte list \<Rightarrow> byte list" where
  "writeAt old off b =
     take off old @ replicate (off - length old) 0 @ b @ drop (off + length b) old"

definition File_Write ::
  "environment \<Rightarrow> step \<Rightarrow> File \<Rightarrow> byte list \<Rightarrow> filesystem
    \<Rightarrow> error option \<times> File \<times> filesystem" where
  "File_Write e st f b fs =
     (if fileClosed f \<or> \<not> fileNode f < length (inodes fs)
      then (Some ''file already closed'', f, fs)
      else
        (let b' = (case failure e st of Some err \<Rightarrow> take (written e st) b | None \<Rightarrow> b);
             d = inodes fs ! fileNode f
         in (failure e st,
             f\<lparr>fileOffset := fileOffset f + length b'\<rparr>,
             fs\<lparr>inodes := (inodes fs)
                  [fileNode f := d\<lparr>content := writeAt (content d) (fileOffset f) b'\<rparr>]\<rparr>)))"

definition File_Seek :: "environment \<Rightarrow> File \<Rightarrow> int \<Rightarrow> error + File" where
  "File_Seek e f off =
     (case failure e SeekOriginal of
        Some err \<Rightarrow> Inl err
      | None \<Rightarrow>
          if fileClosed f then Inl ''file already closed''
          else if off < 0 then Inl ''invalid argument''
          else Inr (f\<lparr>fileOffset := nat off\<rparr>))"

text \<open>\<^verbatim>\<open>io.Copy(dst, src)\<close>: what \<open>src\<close> holds from its offset to its end, written to
  \<open>dst\<close>.\<close>

definition io_Copy ::
  "environment \<Rightarrow> File \<Rightarrow> File \<Rightarrow> filesystem
    \<Rightarrow> error option \<times> File \<times> File \<times> filesystem" where
  "io_Copy e dst src fs =
     (if fileClosed src \<or> \<not> fileNode src < length (inodes fs)
      then (Some ''file already closed'', dst, src, fs)
      else
        (let rest = drop (fileOffset src) (content (inodes fs ! fileNode src))
         in case File_Write e CopyPayload dst rest fs of
              (err, dst', fs') \<Rightarrow>
                (err, dst',
                 src\<lparr>fileOffset := fileOffset src + (fileOffset dst' - fileOffset dst)\<rparr>,
                 fs')))"

definition File_Stat :: "environment \<Rightarrow> File \<Rightarrow> filesystem \<Rightarrow> error + 32 word" where
  "File_Stat e f fs =
     (case failure e StatOriginal of
        Some err \<Rightarrow> Inl err
      | None \<Rightarrow>
          if fileClosed f \<or> \<not> fileNode f < length (inodes fs)
          then Inl ''file already closed''
          else Inr (mode (inodes fs ! fileNode f)))"

definition File_Chmod ::
  "environment \<Rightarrow> File \<Rightarrow> 32 word \<Rightarrow> filesystem \<Rightarrow> error option \<times> filesystem" where
  "File_Chmod e f m fs =
     (case failure e ChmodNew of
        Some err \<Rightarrow> (Some err, fs)
      | None \<Rightarrow>
          if fileClosed f \<or> \<not> fileNode f < length (inodes fs)
          then (Some ''file already closed'', fs)
          else (None,
                fs\<lparr>inodes := (inodes fs)
                     [fileNode f := (inodes fs ! fileNode f)\<lparr>mode := m\<rparr>]\<rparr>))"

text \<open>\<^verbatim>\<open>os.Rename\<close>: in one step, the new path names the file the old path named, and
  the old path names nothing.\<close>

definition os_Rename ::
  "environment \<Rightarrow> string \<Rightarrow> string \<Rightarrow> filesystem \<Rightarrow> error option \<times> filesystem" where
  "os_Rename e oldpath newpath fs =
     (case failure e RenameNew of
        Some err \<Rightarrow> (Some err, fs)
      | None \<Rightarrow>
          (case paths fs oldpath of
             None \<Rightarrow> (Some ''no such file or directory'', fs)
           | Some n \<Rightarrow> (None, fs\<lparr>paths := ((paths fs)(oldpath := None))(newpath \<mapsto> n)\<rparr>)))"

definition File_Close :: "File \<Rightarrow> File" where
  "File_Close f = f\<lparr>fileClosed := True\<rparr>"

section \<open>Save\<close>

text \<open>
  \<^verbatim>\<open>Save\<close> returns its error (\<open>None\<close> is nil) with the tag and the disk afterwards,
  unless forming the frames panics. From \<^verbatim>\<open>defer originalFile.Close()\<close> on, every
  return closes the handle the tag held on entry.
\<close>

definition Save ::
  "('e, 'a) collaborators \<Rightarrow> string list \<Rightarrow> string list \<Rightarrow> environment \<Rightarrow> ('e, 'a) Tag
    \<Rightarrow> filesystem \<Rightarrow> panic + (error option \<times> ('e, 'a) Tag \<times> filesystem)" where
  "Save x pending order e t fs =
     (case formAllFrames x pending order t of
        Inl p \<Rightarrow> Inl p
      | Inr (frames', t1) \<Rightarrow>
          (let framesSize = FormSize x (int (length frames')) in
           case TempFile e fs of
             Inl err \<Rightarrow> Inr (Some err, t1, fs)
           | Inr (newFile, fs1) \<Rightarrow>
          (case File_Write e WriteHeader newFile (formTagHeader x framesSize) fs1 of
             (Some err, newFile1, fs2) \<Rightarrow> Inr (Some err, t1, fs2)
           | (None, newFile1, fs2) \<Rightarrow>
          (case File_Write e WriteFrames newFile1 frames' fs2 of
             (Some err, newFile2, fs3) \<Rightarrow> Inr (Some err, t1, fs3)
           | (None, newFile2, fs3) \<Rightarrow>
          (let originalFile = file' t1;
               closed = t1\<lparr>file' := File_Close originalFile\<rparr> in
           case File_Seek e originalFile (originalSize t1) of
             Inl err \<Rightarrow> Inr (Some err, closed, fs3)
           | Inr originalFile1 \<Rightarrow>
          (case io_Copy e newFile2 originalFile1 fs3 of
             (Some err, newFile3, originalFile2, fs4) \<Rightarrow>
               Inr (Some err, t1\<lparr>file' := File_Close originalFile2\<rparr>, fs4)
           | (None, newFile3, originalFile2, fs4) \<Rightarrow>
          (let closed2 = t1\<lparr>file' := File_Close originalFile2\<rparr> in
           case File_Stat e originalFile2 fs4 of
             Inl err \<Rightarrow> Inr (Some err, closed2, fs4)
           | Inr originalFileMode \<Rightarrow>
          (case File_Chmod e newFile3 originalFileMode fs4 of
             (Some err, fs5) \<Rightarrow> Inr (Some err, closed2, fs5)
           | (None, fs5) \<Rightarrow>
          (case os_Rename e (fileName newFile3) (fileName originalFile2) fs5 of
             (Some err, fs6) \<Rightarrow> Inr (Some err, closed2, fs6)
           | (None, fs6) \<Rightarrow> Inr (None, t1\<lparr>file' := newFile3\<rparr>, fs6))))))))))"

section \<open>Observations\<close>

text \<open>The identifiers \<^verbatim>\<open>findSpecificAddFunction\<close> routes to a sequence, and the
  constructor \<^verbatim>\<open>AddFrame\<close> uses for each when the sequence is absent.\<close>

definition routed :: "('e, 'a) Tag \<Rightarrow> string \<Rightarrow> bool" where
  "routed t i =
     (i = ID t ''Attached picture'' \<or> i = ID t ''Comments''
      \<or> i = ID t ''Unsynchronised lyrics/text transcription'')"

definition newSequenceFor :: "('e, 'a) Tag \<Rightarrow> string \<Rightarrow> ('e, 'a) sequencer" where
  "newSequenceFor t i =
     (if i = ID t ''Attached picture'' then newPictureSequence
      else if i = ID t ''Comments'' then newCommentSequence
      else newUSLFSequence)"

text \<open>The frames of the sequence stored under an identifier; none when there is no
  sequence.\<close>

definition framesOfSequence :: "('e, 'a) Tag \<Rightarrow> string \<Rightarrow> ('e, 'a) Framer list" where
  "framesOfSequence t i = (case sequences t i of None \<Rightarrow> [] | Some s \<Rightarrow> sequencer_Frames s)"

text \<open>A caller's script: \<^verbatim>\<open>AddFrame(id, f1)\<close>, ..., \<^verbatim>\<open>AddFrame(id, fn)\<close> in a row, and
  what \<^verbatim>\<open>GetFrames(id)\<close> and \<^verbatim>\<open>GetLastFrame(id)\<close> return afterwards.\<close>

fun AddFrames :: "('e, 'a) Tag \<Rightarrow> string \<Rightarrow> ('e, 'a) Framer list \<Rightarrow> panic + ('e, 'a) Tag" where
  "AddFrames t i [] = Inr t"
| "AddFrames t i (f # fs) =
     (case AddFrame t i f of Inl p \<Rightarrow> Inl p | Inr t' \<Rightarrow> AddFrames t' i fs)"

definition GetFramesAfter ::
  "('e, 'a) collaborators \<Rightarrow> ('e, 'a) Tag \<Rightarrow> string \<Rightarrow> ('e, 'a) Framer list
    \<Rightarrow> panic + ('e, 'a) Framer list" where
  "GetFramesAfter x t i fs =
     (case AddFrames t i fs of
        Inl p \<Rightarrow> Inl p
      | Inr t' \<Rightarrow> (case GetFrames x t' i of Inl p \<Rightarrow> Inl p | Inr (r, t'') \<Rightarrow> Inr r))"

definition GetLastFrameAfter ::
  "('e, 'a) collaborators \<Rightarrow> ('e, 'a) Tag \<Rightarrow> string \<Rightarrow> ('e, 'a) Framer list
    \<Rightarrow> panic + ('e, 'a) Framer" where
  "GetLastFrameAfter x t i fs =
     (case AddFrames t i fs of
        Inl p \<Rightarrow> Inl p
      | Inr t' \<Rightarrow> (case GetLastFrame x t' i of Inl p \<Rightarrow> Inl p | Inr (r, t'') \<Rightarrow> Inr r))"

text \<open>Nothing is stored or pending under an identifier; a frame of a type other than
  \<^verbatim>\<open>TextFrame\<close> is stored flat under it, with nothing pending.\<close>

definition nothingUnder :: "('e, 'a) Tag \<Rightarrow> string \<Rightarrow> bool" where
  "nothingUnder t i = (framesCoords t i = None \<and> frames t i = None \<and> sequences t i = None)"

definition strayUnder :: "('e, 'a) Tag \<Rightarrow> string \<Rightarrow> 'a \<Rightarrow> bool" where
  "strayUnder t i a = (framesCoords t i = None \<and> frames t i = Some (OtherFramer a))"

text \<open>The invariant of the sequences: every sequence stored in the tag holds at least one
  frame. And the order between two states of a tag: every sequence of the later state
  starts with the frames it had in the earlier one.\<close>

definition sequencesNonEmpty :: "('e, 'a) Tag \<Rightarrow> bool" where
  "sequencesNonEmpty t = (\<forall>i s. sequences t i = Some s \<longrightarrow> sequencer_Frames s \<noteq> [])"

definition sequencesExtended :: "('e, 'a) Tag \<Rightarrow> ('e, 'a) Tag \<Rightarrow> bool" where
  "sequencesExtended t t' =
     (\<forall>k. \<exists>ys. framesOfSequence t' k = framesOfSequence t k @ ys)"

text \<open>The block \<^verbatim>\<open>formFrame\<close> forms for a frame under an identifier; the frames a tag
  holds under an identifier, the flat one before those of the sequence; and the blocks of
  all of them, for the identifiers of a list in turn.\<close>

definition frameBlock :: "('e, 'a) collaborators \<Rightarrow> string \<Rightarrow> ('e, 'a) Framer \<Rightarrow> byte list" where
  "frameBlock x i f = bytesOf i @ FormSize x (int (length (Body x f))) @ [0, 0] @ Body x f"

definition framesUnder :: "('e, 'a) Tag \<Rightarrow> string \<Rightarrow> ('e, 'a) Framer list" where
  "framesUnder t i =
     (case frames t i of None \<Rightarrow> [] | Some f \<Rightarrow> [f]) @ framesOfSequence t i"

definition blocksOf ::
  "('e, 'a) collaborators \<Rightarrow> ('e, 'a) Tag \<Rightarrow> string list \<Rightarrow> byte list" where
  "blocksOf x t order = concat (map (\<lambda>i. concat (map (frameBlock x i) (framesUnder t i))) order)"

text \<open>A handle is open on the file at the path it was opened under: the state of the
  handle of a tag that has just been opened.\<close>

definition opened :: "filesystem \<Rightarrow> File \<Rightarrow> bool" where
  "opened fs f = (paths fs (fileName f) = Some (fileNode f) \<and> fileNode f < length (inodes fs))"

text \<open>The error of the first call of \<^verbatim>\<open>Save\<close> that the operating system lets fail, in
  the order \<^verbatim>\<open>Save\<close> makes its calls; \<open>None\<close> when it lets none fail.\<close>

fun firstOf :: "(step \<Rightarrow> error option) \<Rightarrow> step list \<Rightarrow> error option" where
  "firstOf f [] = None"
| "firstOf f (s # ss) = (case f s of Some err \<Rightarrow> Some err | None \<Rightarrow> firstOf f ss)"

definition firstFailure :: "environment \<Rightarrow> error option" where
  "firstFailure e =
     firstOf (failure e)
       [CreateTemp, WriteHeader, WriteFrames, SeekOriginal, CopyPayload, StatOriginal,
        ChmodNew, RenameNew]"

text \<open>The temporary file while \<^verbatim>\<open>Save\<close> runs: its handle at a given offset, and the
  disk with the temporary file, of given contents and mode, added to the files that were
  there.\<close>

definition tmpFile :: "filesystem \<Rightarrow> environment \<Rightarrow> nat \<Rightarrow> File" where
  "tmpFile fs e off =
     \<lparr>fileName = tempName e, fileNode = length (inodes fs), fileOffset = off,
      fileClosed = False\<rparr>"

definition tmpFs :: "filesystem \<Rightarrow> (string \<rightharpoonup> nat) \<Rightarrow> byte list \<Rightarrow> 32 word \<Rightarrow> filesystem" where
  "tmpFs fs P c m = \<lparr>paths = P, inodes = inodes fs @ [\<lparr>content = c, mode = m\<rparr>]\<rparr>"

section \<open>Example data\<close>

text \<open>A table of identifiers, a tag with nothing stored, a tag that already holds one
  picture, and stand-ins for the collaborators: a size codec of four bytes, a header of
  the bytes of \<^verbatim>\<open>ID3\<close> before the size, frame bodies, and a decoder.\<close>

definition exampleIDs :: "string \<rightharpoonup> string" where
  "exampleIDs =
     [''Attached picture'' \<mapsto> ''APIC'',
      ''Comments'' \<mapsto> ''COMM'',
      ''Unsynchronised lyrics/text transcription'' \<mapsto> ''USLT'',
      ''Title/Songname/Content description'' \<mapsto> ''TIT2'',
      ''Lead artist/Lead performer/Soloist/Performing group'' \<mapsto> ''TPE1'',
      ''Album/Movie/Show title'' \<mapsto> ''TALB'',
      ''Recording time'' \<mapsto> ''TDRC'',
      ''Content type'' \<mapsto> ''TCON'']"

definition exampleFile :: File where
  "exampleFile = \<lparr>fileName = ''song.mp3'', fileNode = 0, fileOffset = 0, fileClosed = False\<rparr>"

definition emptyTag :: "(nat, string) Tag" where
  "emptyTag =
     \<lparr>framesCoords = Map.empty, frames = Map.empty, sequences = Map.empty,
      ids = exampleIDs, file' = exampleFile, originalSize = 3\<rparr>"

definition pictureTag :: "(nat, string) Tag" where
  "pictureTag =
     emptyTag\<lparr>sequences := [''APIC'' \<mapsto> Sequence PictureSequence [OtherFramer ''G'']]\<rparr>"

definition strayTag :: "(nat, string) Tag" where
  "strayTag = emptyTag\<lparr>frames := [''TIT2'' \<mapsto> OtherFramer ''cover'']\<rparr>"

definition titledTag :: "(nat, string) Tag" where
  "titledTag = emptyTag\<lparr>frames := [''TIT2'' \<mapsto> TextFramer \<lparr>Encoding = 3, Text = ''Foo''\<rparr>]\<rparr>"

definition pendingTag :: "(nat, string) Tag" where
  "pendingTag = emptyTag\<lparr>framesCoords := [''APIC'' \<mapsto> [(10, 20), (30, 5)]]\<rparr>"

text \<open>A disk with one file, of a tag region of three bytes before three bytes of audio;
  an operating system that lets no call fail; and one that lets the copy of the audio fail
  after two bytes.\<close>

definition exampleDisk :: filesystem where
  "exampleDisk =
     \<lparr>paths = [''song.mp3'' \<mapsto> 0],
      inodes = [\<lparr>content = [73, 68, 51, 255, 251, 144], mode = 420\<rparr>]\<rparr>"

definition quiet :: environment where
  "quiet = \<lparr>failure = (\<lambda>s. None), written = (\<lambda>s. 0), tempName = ''tmp001''\<rparr>"

definition diskFull :: environment where
  "diskFull =
     \<lparr>failure = (\<lambda>s. if s = CopyPayload then Some ''no space left on device'' else None),
      written = (\<lambda>s. 2), tempName = ''tmp001''\<rparr>"

text \<open>An operating system that lets no call fail either, at a later run: it picks another
  temporary name.\<close>

definition quietAgain :: environment where
  "quietAgain = \<lparr>failure = (\<lambda>s. None), written = (\<lambda>s. 0), tempName = ''tmp002''\<rparr>"

definition exampleCollaborators :: "(nat, string) collaborators" where
  "exampleCollaborators =
     \<lparr>FormSize = (\<lambda>n. [0, 0, 0, word_of_int n]),
      formTagHeader = (\<lambda>size. [73, 68, 51] @ size),
      Body = (\<lambda>f. case f of
                 NilFramer \<Rightarrow> []
               | TextFramer tf \<Rightarrow> word_of_nat (Encoding tf) # bytesOf (Text tf)
               | OtherFramer a \<Rightarrow> bytesOf a),
      readFrame = (\<lambda>i fc. OtherFramer ''parsed''),
      ENUTF8 = 3\<rparr>"

section \<open>Adding frames\<close>

lemmas add_defs =
  routed_def ID_def AddFrame_def findSpecificAddFunction_def addAttachedPicture_def
  addCommentFrame_def addUnsynchronisedLyricsFrame_def addFrameToSequence_def
  checkExistenceOfSequence_def newPictureSequence_def newCommentSequence_def
  newUSLFSequence_def Let_def

lemmas example_defs =
  pictureTag_def emptyTag_def exampleIDs_def exampleFile_def exampleCollaborators_def

lemma AddFrame_routed:
  "routed t i \<Longrightarrow>
   AddFrame t i f =
     Inr (t\<lparr>sequences := (sequences t)(i \<mapsto>
            sequencer_AddFrame
              (case sequences t i of None \<Rightarrow> newSequenceFor t i | Some s \<Rightarrow> s) f)\<rparr>)"
  by (auto simp: routed_def AddFrame_def findSpecificAddFunction_def addAttachedPicture_def
      addCommentFrame_def addUnsynchronisedLyricsFrame_def addFrameToSequence_def
      checkExistenceOfSequence_def newSequenceFor_def Let_def split: option.splits)

lemma AddFrame_flat:
  "\<not> routed t i \<Longrightarrow> AddFrame t i f = Inr (t\<lparr>frames := (frames t)(i \<mapsto> f)\<rparr>)"
  by (simp add: routed_def AddFrame_def findSpecificAddFunction_def)


lemma sequencer_Frames_AddFrame [simp]:
  "sequencer_Frames (sequencer_AddFrame s f) = sequencer_Frames s @ [f]"
  by (cases s) simp

lemma sequencer_Frames_new [simp]: "sequencer_Frames (newSequenceFor t i) = []"
  by (simp add: newSequenceFor_def newPictureSequence_def newCommentSequence_def
      newUSLFSequence_def)

lemma routed_frames_update: "routed (t\<lparr>frames := m\<rparr>) i = routed t i"
  by (simp add: routed_def ID_def)

lemma routed_sequences_update: "routed (t\<lparr>sequences := m\<rparr>) i = routed t i"
  by (simp add: routed_def ID_def)

lemma AddFrame_fields:
  "\<exists>t'. AddFrame t i f = Inr t' \<and> framesCoords t' = framesCoords t \<and> ids t' = ids t
      \<and> file' t' = file' t \<and> originalSize t' = originalSize t"
  by (cases "routed t i") (simp_all add: AddFrame_routed AddFrame_flat)

text \<open>
  C10: \<^verbatim>\<open>AddFrame(id, f)\<close> never panics and changes one entry of one map. For a routed
  identifier it leaves \<^verbatim>\<open>frames\<close> and \<^verbatim>\<open>framesCoords\<close> as they were and sets
  \<^verbatim>\<open>sequences[id]\<close> to the sequence that was there (a newly constructed one when there
  was none) with \<open>f\<close> appended; for any other identifier it leaves \<^verbatim>\<open>sequences\<close> and
  \<^verbatim>\<open>framesCoords\<close> as they were and sets \<^verbatim>\<open>frames[id]\<close> to \<open>f\<close>. The entries of every
  other identifier, and the other fields of the tag, are unchanged.
\<close>

theorem AddFrame_confined:
  "\<exists>t'. AddFrame t i f = Inr t' \<and> framesCoords t' = framesCoords t \<and> ids t' = ids t
      \<and> file' t' = file' t \<and> originalSize t' = originalSize t
      \<and> (if routed t i
          then frames t' = frames t
             \<and> sequences t' = (sequences t)(i \<mapsto>
                 sequencer_AddFrame
                   (case sequences t i of None \<Rightarrow> newSequenceFor t i | Some s \<Rightarrow> s) f)
          else sequences t' = sequences t \<and> frames t' = (frames t)(i \<mapsto> f))"
  by (cases "routed t i") (simp_all add: AddFrame_routed AddFrame_flat)

lemma AddFrames_flat:
  "\<not> routed t i \<Longrightarrow> l = last (f # fs) \<Longrightarrow>
   AddFrames t i (f # fs) = Inr (t\<lparr>frames := (frames t)(i \<mapsto> l)\<rparr>)"
proof (induction fs arbitrary: t f)
  case Nil
  have l: "l = f"
    using Nil.prems(2) by simp
  have "AddFrames t i [f] = Inr (t\<lparr>frames := (frames t)(i \<mapsto> f)\<rparr>)"
    using Nil.prems(1) by (simp add: AddFrame_flat)
  then show ?case unfolding l .
next
  case (Cons g fs)
  let ?t1 = "t\<lparr>frames := (frames t)(i \<mapsto> f)\<rparr>"
  have nr: "\<not> routed ?t1 i"
    using Cons.prems by (simp add: routed_frames_update)
  have l: "l = last (g # fs)"
    using Cons.prems by simp
  have "AddFrames t i (f # g # fs) = AddFrames ?t1 i (g # fs)"
    using Cons.prems by (simp add: AddFrame_flat)
  also have "\<dots> = Inr (?t1\<lparr>frames := (frames ?t1)(i \<mapsto> l)\<rparr>)"
    by (rule Cons.IH [OF nr l])
  also have "?t1\<lparr>frames := (frames ?t1)(i \<mapsto> l)\<rparr> = t\<lparr>frames := (frames t)(i \<mapsto> l)\<rparr>"
    by (rule Tag.equality) simp_all
  finally show ?case .
qed

lemma AddFrame_routed_fields:
  assumes "routed t i"
  shows "\<exists>t'. AddFrame t i f = Inr t' \<and> routed t' i \<and> frames t' = frames t
           \<and> framesCoords t' = framesCoords t
           \<and> framesOfSequence t' i = framesOfSequence t i @ [f]"
  using assms
  by (simp add: AddFrame_routed routed_sequences_update framesOfSequence_def
      split: option.splits)

lemma AddFrames_routed:
  "routed t i \<Longrightarrow>
   \<exists>t'. AddFrames t i fs = Inr t' \<and> frames t' = frames t
      \<and> framesCoords t' = framesCoords t
      \<and> framesOfSequence t' i = framesOfSequence t i @ fs"
proof (induction fs arbitrary: t)
  case Nil
  then show ?case by simp
next
  case (Cons f fs)
  from AddFrame_routed_fields [OF Cons.prems, of f]
  obtain t1 where t1: "AddFrame t i f = Inr t1" "routed t1 i" "frames t1 = frames t"
    "framesCoords t1 = framesCoords t" "framesOfSequence t1 i = framesOfSequence t i @ [f]"
    by blast
  from Cons.IH [OF t1(2)]
  obtain t' where t': "AddFrames t1 i fs = Inr t'" "frames t' = frames t1"
    "framesCoords t' = framesCoords t1" "framesOfSequence t' i = framesOfSequence t1 i @ fs"
    by blast
  show ?case using t1 t' by simp
qed

lemma GetFrames_no_pending:
  "framesCoords t i = None \<Longrightarrow>
   GetFrames x t i =
     Inr (case frames t i of Some f \<Rightarrow> [f] | None \<Rightarrow> framesOfSequence t i, t)"
  by (simp add: GetFrames_def framesOfSequence_def split: option.splits)

lemma example_facts:
  "routed pictureTag ''APIC''" "framesCoords pictureTag ''APIC'' = None"
  "frames pictureTag ''APIC'' = None"
  "framesOfSequence pictureTag ''APIC'' = [OtherFramer ''G'']"
  "routed emptyTag ''APIC''" "framesCoords emptyTag ''APIC'' = None"
  "frames emptyTag ''APIC'' = None" "sequences emptyTag ''APIC'' = None"
  "framesOfSequence emptyTag ''APIC'' = []"
  "ID emptyTag ''Attached picture'' = ''APIC''"
  "\<not> routed emptyTag ''TIT2''" "framesCoords emptyTag ''TIT2'' = None"
  by (simp_all add: pictureTag_def routed_def ID_def emptyTag_def exampleIDs_def
      framesOfSequence_def)

text \<open>
  C3: for a routed identifier \<open>i\<close> and a tag with no pending coordinates and no flat
  frame under \<open>i\<close>, after \<^verbatim>\<open>AddFrame(i, f1)\<close>, ..., \<^verbatim>\<open>AddFrame(i, fn)\<close> the call
  \<^verbatim>\<open>GetFrames(i)\<close> returns the frames the sequence of \<open>i\<close> held before, followed by
  \<open>f1, ..., fn\<close> in insertion order: nothing is replaced, and the result is exactly
  \<open>[f1, ..., fn]\<close> when \<open>i\<close> had no sequence, which the first add then creates.
\<close>

theorem AddFrame_appends:
  assumes "routed t i" and "framesCoords t i = None" and "frames t i = None"
  shows "GetFramesAfter x t i fs = Inr (framesOfSequence t i @ fs)
         \<and> (sequences t i = None \<longrightarrow> GetFramesAfter x t i fs = Inr fs)"
proof -
  from AddFrames_routed [OF assms(1), of fs]
  obtain t' where t': "AddFrames t i fs = Inr t'" "frames t' = frames t"
    "framesCoords t' = framesCoords t" "framesOfSequence t' i = framesOfSequence t i @ fs"
    by blast
  have "GetFrames x t' i = Inr (framesOfSequence t' i, t')"
    using t' assms by (simp add: GetFrames_no_pending)
  then have "GetFramesAfter x t i fs = Inr (framesOfSequence t i @ fs)"
    using t' by (simp add: GetFramesAfter_def)
  then show ?thesis by (simp add: framesOfSequence_def)
qed

theorem AddFrame_appends_witness:
  "routed pictureTag ''APIC'' \<and> framesCoords pictureTag ''APIC'' = None
   \<and> frames pictureTag ''APIC'' = None
   \<and> GetFramesAfter exampleCollaborators pictureTag ''APIC''
        [OtherFramer ''A'', OtherFramer ''B'']
       = Inr [OtherFramer ''G'', OtherFramer ''A'', OtherFramer ''B'']
   \<and> sequences emptyTag ''APIC'' = None
   \<and> GetFramesAfter exampleCollaborators emptyTag ''APIC''
        [OtherFramer ''A'', OtherFramer ''B''] = Inr [OtherFramer ''A'', OtherFramer ''B'']"
  using AddFrame_appends [of pictureTag "''APIC''" exampleCollaborators
      "[OtherFramer ''A'', OtherFramer ''B'']"]
    AddFrame_appends [of emptyTag "''APIC''" exampleCollaborators
      "[OtherFramer ''A'', OtherFramer ''B'']"]
  by (simp add: example_facts)

text \<open>The claim as written asks for exactly the added frames on every tag with no
  pending coordinates; a tag whose picture sequence already holds \<open>G\<close> returns \<open>G\<close>
  before the added frame.\<close>

theorem AddFrame_exactly_added_counterexample:
  "routed pictureTag ''APIC'' \<and> framesCoords pictureTag ''APIC'' = None
   \<and> GetFramesAfter exampleCollaborators pictureTag ''APIC'' [OtherFramer ''F'']
       = Inr [OtherFramer ''G'', OtherFramer ''F'']
   \<and> GetFramesAfter exampleCollaborators pictureTag ''APIC'' [OtherFramer ''F'']
       \<noteq> Inr [OtherFramer ''F'']"
  by (simp add: example_defs add_defs GetFramesAfter_def GetFrames_def)

text \<open>
  C4: for an identifier that is not routed and a tag with no pending coordinates for it,
  after \<^verbatim>\<open>AddFrame(i, f1)\<close> and \<^verbatim>\<open>AddFrame(i, f2)\<close> the call \<^verbatim>\<open>GetFrames(i)\<close>
  returns exactly \<open>[f2]\<close>.
\<close>

theorem AddFrame_overwrites:
  assumes "\<not> routed t i" and "framesCoords t i = None"
  shows "GetFramesAfter x t i [f1, f2] = Inr [f2]"
  using assms AddFrames_flat [of t i f2 f1 "[f2]"]
  by (simp add: GetFramesAfter_def GetFrames_def del: AddFrames.simps)

theorem AddFrame_overwrites_witness:
  "\<not> routed emptyTag ''TIT2'' \<and> framesCoords emptyTag ''TIT2'' = None
   \<and> GetFramesAfter exampleCollaborators emptyTag ''TIT2''
        [OtherFramer ''first'', OtherFramer ''second''] = Inr [OtherFramer ''second'']"
  using AddFrame_overwrites [of emptyTag "''TIT2''" exampleCollaborators
      "OtherFramer ''first''" "OtherFramer ''second''"]
  by (simp add: example_facts)

section \<open>Frame serialization\<close>

text \<open>
  C5: for a non-empty identifier and a frame (a non-nil \<^verbatim>\<open>Framer\<close>), \<^verbatim>\<open>formFrame\<close>
  returns the bytes of the identifier, then \<^verbatim>\<open>FormSize\<close> of the length of the frame's
  body, then two zero bytes, then the body.
\<close>

theorem formFrame_block:
  assumes "i \<noteq> []" and "f \<noteq> NilFramer"
  shows "formFrame x i f =
           Inr (bytesOf i @ FormSize x (int (length (Body x f))) @ [0, 0] @ Body x f)"
  using assms
  by (simp add: formFrame_def writeFrameHeader_def bytesbufferpool_Get_def Let_def)

theorem formFrame_block_witness:
  "''TIT2'' \<noteq> [] \<and> TextFramer \<lparr>Encoding = 3, Text = ''Foo''\<rparr> \<noteq> (NilFramer :: (nat, string) Framer)
   \<and> formFrame exampleCollaborators ''TIT2'' (TextFramer \<lparr>Encoding = 3, Text = ''Foo''\<rparr>)
       = Inr [84, 73, 84, 50, 0, 0, 0, 4, 0, 0, 3, 70, 111, 111]"
proof -
  let ?f = "TextFramer \<lparr>Encoding = 3, Text = ''Foo''\<rparr> :: (nat, string) Framer"
  have body: "Body exampleCollaborators ?f = [3, 70, 111, 111]"
    by (simp add: exampleCollaborators_def bytesOf_def)
  have size: "FormSize exampleCollaborators 4 = [0, 0, 0, 4]"
    by (simp add: exampleCollaborators_def)
  have "formFrame exampleCollaborators ''TIT2'' ?f =
          Inr (bytesOf ''TIT2'' @ FormSize exampleCollaborators
                 (int (length (Body exampleCollaborators ?f))) @ [0, 0]
               @ Body exampleCollaborators ?f)"
    using formFrame_block [of "''TIT2''" ?f exampleCollaborators] by simp
  then show ?thesis by (simp add: body size bytesOf_def)
qed

text \<open>
  C6: with the empty identifier \<^verbatim>\<open>formFrame\<close> panics for every frame and returns no
  bytes, and the loop that writes the frames of the empty identifier panics before
  anything is written to the buffer.
\<close>

theorem formFrame_blank:
  "formFrame x [] f = Inl BlankID \<and> (\<forall>b. formFrame x [] f \<noteq> Inr b)
   \<and> writeFramesOf x [] (f # fs) w = Inl BlankID"
  by (simp add: formFrame_def)

section \<open>Retrieval\<close>

lemma GetLastFrame_last:
  "GetLastFrame x t i =
     (case GetFrames x t i of
        Inl p \<Rightarrow> Inl p
      | Inr (fs, t1) \<Rightarrow> Inr (if fs = [] then NilFramer else last fs, t1))"
  by (simp add: GetLastFrame_def last_conv_nth split: sum.splits prod.splits)

lemma routed_picture: "routed t (ID t ''Attached picture'')"
  by (simp add: routed_def)

text \<open>
  C7: \<^verbatim>\<open>GetLastFrame(id)\<close> returns the last element of what \<^verbatim>\<open>GetFrames(id)\<close> returns
  when that is not empty, and nil when it is empty. After \<^verbatim>\<open>AddFrame\<close> of three frames
  \<open>A\<close>, \<open>B\<close>, \<open>C\<close> under the picture identifier, on a tag with no pending coordinates
  and no flat frame under that identifier, \<^verbatim>\<open>GetLastFrame\<close> of the picture identifier
  is \<open>C\<close>.
\<close>

theorem GetLastFrame_is_last:
  "GetLastFrame x t i =
     (case GetFrames x t i of
        Inl p \<Rightarrow> Inl p
      | Inr (fs, t1) \<Rightarrow> Inr (if fs = [] then NilFramer else last fs, t1))
   \<and> (framesCoords t (ID t ''Attached picture'') = None
        \<and> frames t (ID t ''Attached picture'') = None
      \<longrightarrow> GetLastFrameAfter x t (ID t ''Attached picture'') [A, B, C] = Inr C)"
proof -
  let ?i = "ID t ''Attached picture''"
  have "GetLastFrameAfter x t ?i [A, B, C] = Inr C"
    if none: "framesCoords t ?i = None" "frames t ?i = None"
  proof -
    from AddFrames_routed [OF routed_picture, of t "[A, B, C]"]
    obtain t' where t': "AddFrames t ?i [A, B, C] = Inr t'" "frames t' = frames t"
      "framesCoords t' = framesCoords t"
      "framesOfSequence t' ?i = framesOfSequence t ?i @ [A, B, C]"
      by blast
    have "GetFrames x t' ?i = Inr (framesOfSequence t ?i @ [A, B, C], t')"
      using t' none by (simp add: GetFrames_no_pending)
    then have "GetLastFrame x t' ?i = Inr (C, t')"
      by (simp add: GetLastFrame_last)
    then show ?thesis
      using t'(1) by (simp add: GetLastFrameAfter_def del: AddFrames.simps)
  qed
  then show ?thesis by (simp add: GetLastFrame_last)
qed

theorem GetLastFrame_is_last_witness:
  "GetLastFrame exampleCollaborators emptyTag ''TIT2'' = Inr (NilFramer, emptyTag)
   \<and> framesCoords emptyTag ''APIC'' = None \<and> frames emptyTag ''APIC'' = None
   \<and> GetLastFrameAfter exampleCollaborators emptyTag ''APIC''
        [OtherFramer ''A'', OtherFramer ''B'', OtherFramer ''C''] = Inr (OtherFramer ''C'')"
proof -
  have g: "GetFrames exampleCollaborators emptyTag ''TIT2'' = Inr ([], emptyTag)"
    by (simp add: GetFrames_def emptyTag_def)
  show ?thesis
    using GetLastFrame_is_last [of exampleCollaborators emptyTag "''TIT2''"
        "OtherFramer ''A''" "OtherFramer ''B''" "OtherFramer ''C''"]
    by (simp add: g example_facts)
qed

lemma textOf_GetTextFrame_absent:
  assumes "framesCoords t i = None" and "frames t i = None" and "sequences t i = None"
  shows "textOf (GetTextFrame x t i) = Inr ([], t)"
  using assms
  by (simp add: textOf_def GetTextFrame_def GetLastFrame_last GetFrames_no_pending
      framesOfSequence_def)

lemma textOf_GetTextFrame_other:
  assumes "framesCoords t i = None" and "frames t i = Some (OtherFramer a)"
  shows "textOf (GetTextFrame x t i) = Inl TypeAssertion"
  using assms
  by (simp add: textOf_def GetTextFrame_def GetLastFrame_last GetFrames_no_pending)

text \<open>
  C9: when \<^verbatim>\<open>GetLastFrame(id)\<close> yields a non-nil frame whose concrete type is not
  \<^verbatim>\<open>TextFrame\<close>, \<^verbatim>\<open>GetTextFrame(id)\<close> panics in its type assertion; when it yields nil,
  \<^verbatim>\<open>GetTextFrame(id)\<close> returns the zero \<^verbatim>\<open>TextFrame\<close>. So each of \<^verbatim>\<open>Title\<close>,
  \<^verbatim>\<open>Artist\<close>, \<^verbatim>\<open>Album\<close>, \<^verbatim>\<open>Year\<close> and \<^verbatim>\<open>Genre\<close> returns the empty string when
  nothing is stored or pending under its identifier, and panics when a frame of another
  type is stored under it.
\<close>

theorem GetTextFrame_unchecked:
  "(GetLastFrame x t i = Inr (OtherFramer a, t1) \<longrightarrow> GetTextFrame x t i = Inl TypeAssertion)
   \<and> (GetLastFrame x t i = Inr (NilFramer, t1)
        \<longrightarrow> GetTextFrame x t i = Inr (\<lparr>Encoding = 0, Text = []\<rparr>, t1))
   \<and> (nothingUnder t (ID t ''Title/Songname/Content description'')
        \<longrightarrow> Title x t = Inr ([], t))
   \<and> (strayUnder t (ID t ''Title/Songname/Content description'') a
        \<longrightarrow> Title x t = Inl TypeAssertion)
   \<and> (nothingUnder t (ID t ''Lead artist/Lead performer/Soloist/Performing group'')
        \<longrightarrow> Artist x t = Inr ([], t))
   \<and> (strayUnder t (ID t ''Lead artist/Lead performer/Soloist/Performing group'') a
        \<longrightarrow> Artist x t = Inl TypeAssertion)
   \<and> (nothingUnder t (ID t ''Album/Movie/Show title'') \<longrightarrow> Album x t = Inr ([], t))
   \<and> (strayUnder t (ID t ''Album/Movie/Show title'') a \<longrightarrow> Album x t = Inl TypeAssertion)
   \<and> (nothingUnder t (ID t ''Recording time'') \<longrightarrow> Year x t = Inr ([], t))
   \<and> (strayUnder t (ID t ''Recording time'') a \<longrightarrow> Year x t = Inl TypeAssertion)
   \<and> (nothingUnder t (ID t ''Content type'') \<longrightarrow> Genre x t = Inr ([], t))
   \<and> (strayUnder t (ID t ''Content type'') a \<longrightarrow> Genre x t = Inl TypeAssertion)"
proof (intro conjI)
  show "GetLastFrame x t i = Inr (OtherFramer a, t1) \<longrightarrow> GetTextFrame x t i = Inl TypeAssertion"
    by (simp add: GetTextFrame_def)
  show "GetLastFrame x t i = Inr (NilFramer, t1)
        \<longrightarrow> GetTextFrame x t i = Inr (\<lparr>Encoding = 0, Text = []\<rparr>, t1)"
    by (simp add: GetTextFrame_def)
qed (simp_all add: Title_def Artist_def Album_def Year_def Genre_def nothingUnder_def
      strayUnder_def textOf_GetTextFrame_absent textOf_GetTextFrame_other)

theorem GetTextFrame_unchecked_witness:
  "GetLastFrame exampleCollaborators strayTag ''TIT2'' = Inr (OtherFramer ''cover'', strayTag)
   \<and> GetTextFrame exampleCollaborators strayTag ''TIT2'' = Inl TypeAssertion
   \<and> strayUnder strayTag (ID strayTag ''Title/Songname/Content description'') ''cover''
   \<and> Title exampleCollaborators strayTag = Inl TypeAssertion
   \<and> GetLastFrame exampleCollaborators emptyTag ''TIT2'' = Inr (NilFramer, emptyTag)
   \<and> GetTextFrame exampleCollaborators emptyTag ''TIT2''
       = Inr (\<lparr>Encoding = 0, Text = []\<rparr>, emptyTag)
   \<and> nothingUnder emptyTag (ID emptyTag ''Title/Songname/Content description'')
   \<and> Title exampleCollaborators emptyTag = Inr ([], emptyTag)"
proof -
  have s: "GetLastFrame exampleCollaborators strayTag ''TIT2''
             = Inr (OtherFramer ''cover'', strayTag)"
    by (simp add: GetLastFrame_last GetFrames_def strayTag_def emptyTag_def)
  have e: "GetLastFrame exampleCollaborators emptyTag ''TIT2'' = Inr (NilFramer, emptyTag)"
    by (simp add: GetLastFrame_last GetFrames_def emptyTag_def)
  have su: "strayUnder strayTag (ID strayTag ''Title/Songname/Content description'') ''cover''"
    by (simp add: strayUnder_def ID_def strayTag_def emptyTag_def exampleIDs_def)
  have nu: "nothingUnder emptyTag (ID emptyTag ''Title/Songname/Content description'')"
    by (simp add: nothingUnder_def ID_def emptyTag_def exampleIDs_def)
  show ?thesis
    using s e su nu
      GetTextFrame_unchecked [of exampleCollaborators strayTag "''TIT2''" "''cover''" strayTag]
      GetTextFrame_unchecked [of exampleCollaborators emptyTag "''TIT2''" "''cover''" emptyTag]
    by simp
qed

section \<open>The invariant of the sequences\<close>

lemma sequencesExtended_refl [simp]: "sequencesExtended t t"
  by (simp add: sequencesExtended_def)

lemma sequencesExtended_trans:
  "sequencesExtended t t1 \<Longrightarrow> sequencesExtended t1 t2 \<Longrightarrow> sequencesExtended t t2"
  unfolding sequencesExtended_def
proof
  fix k
  assume a: "\<forall>k. \<exists>ys. framesOfSequence t1 k = framesOfSequence t k @ ys"
    and b: "\<forall>k. \<exists>ys. framesOfSequence t2 k = framesOfSequence t1 k @ ys"
  from a obtain ys where "framesOfSequence t1 k = framesOfSequence t k @ ys" by blast
  moreover from b obtain zs where "framesOfSequence t2 k = framesOfSequence t1 k @ zs" by blast
  ultimately have "framesOfSequence t2 k = framesOfSequence t k @ (ys @ zs)" by simp
  then show "\<exists>ys. framesOfSequence t2 k = framesOfSequence t k @ ys" by blast
qed

lemma framesOfSequence_AddFrame:
  assumes "AddFrame t i f = Inr t'"
  shows "framesOfSequence t' k =
           (if k = i \<and> routed t i then framesOfSequence t k @ [f] else framesOfSequence t k)"
proof (cases "routed t i")
  case True
  then show ?thesis
    using assms by (auto simp: AddFrame_routed framesOfSequence_def split: option.splits)
next
  case False
  then show ?thesis
    using assms by (auto simp: AddFrame_flat framesOfSequence_def)
qed

lemma AddFrame_keeps:
  assumes "sequencesNonEmpty t"
  shows "\<exists>t'. AddFrame t i f = Inr t' \<and> sequencesNonEmpty t' \<and> sequencesExtended t t'
           \<and> framesCoords t' = framesCoords t"
proof -
  obtain t' where t': "AddFrame t i f = Inr t'" "framesCoords t' = framesCoords t"
    using AddFrame_fields [of t i f] by blast
  have ext: "sequencesExtended t t'"
    by (simp add: sequencesExtended_def framesOfSequence_AddFrame [OF t'(1)])
  have "sequencesNonEmpty t'"
  proof (cases "routed t i")
    case True
    then show ?thesis
      using t'(1) assms
      by (auto simp: AddFrame_routed sequencesNonEmpty_def split: if_splits)
  next
    case False
    then show ?thesis
      using t'(1) assms by (auto simp: AddFrame_flat sequencesNonEmpty_def)
  qed
  then show ?thesis using t' ext by blast
qed

lemma parseFrames_keeps:
  "sequencesNonEmpty t \<Longrightarrow>
   \<exists>t'. parseFrames x t i fcs = Inr t' \<and> sequencesNonEmpty t' \<and> sequencesExtended t t'"
proof (induction fcs arbitrary: t)
  case Nil
  then show ?case by simp
next
  case (Cons fc fcs)
  from AddFrame_keeps [OF Cons.prems, of i "readFrame x i fc"]
  obtain t1 where t1: "AddFrame t i (readFrame x i fc) = Inr t1" "sequencesNonEmpty t1"
    "sequencesExtended t t1"
    by blast
  from Cons.IH [OF t1(2)]
  obtain t' where t': "parseFrames x t1 i fcs = Inr t'" "sequencesNonEmpty t'"
    "sequencesExtended t1 t'"
    by blast
  show ?case
    using t1 t' sequencesExtended_trans [OF t1(3) t'(3)] by simp
qed

lemma keeps_framesCoords_update:
  "sequencesNonEmpty (t\<lparr>framesCoords := m\<rparr>) = sequencesNonEmpty t"
  "sequencesExtended t0 (t\<lparr>framesCoords := m\<rparr>) = sequencesExtended t0 t"
  by (simp_all add: sequencesNonEmpty_def sequencesExtended_def framesOfSequence_def)

lemma parseFramesCoordsWithID_keeps:
  assumes "sequencesNonEmpty t"
  shows "\<exists>t'. parseFramesCoordsWithID x t i = Inr t' \<and> sequencesNonEmpty t'
           \<and> sequencesExtended t t'"
proof (cases "framesCoords t i")
  case None
  then show ?thesis using assms by (simp add: parseFramesCoordsWithID_def)
next
  case (Some fcs)
  from parseFrames_keeps [OF assms, of x i fcs]
  obtain t' where "parseFrames x t i fcs = Inr t'" "sequencesNonEmpty t'"
    "sequencesExtended t t'"
    by blast
  then show ?thesis
    using Some by (simp add: parseFramesCoordsWithID_def keeps_framesCoords_update)
qed

lemma parseAllFramesCoords_keeps:
  "sequencesNonEmpty t \<Longrightarrow>
   \<exists>t'. parseAllFramesCoords x pending t = Inr t' \<and> sequencesNonEmpty t'
     \<and> sequencesExtended t t'"
proof (induction pending arbitrary: t)
  case Nil
  then show ?case by simp
next
  case (Cons i pending)
  from parseFramesCoordsWithID_keeps [OF Cons.prems, of x i]
  obtain t1 where t1: "parseFramesCoordsWithID x t i = Inr t1" "sequencesNonEmpty t1"
    "sequencesExtended t t1"
    by blast
  from Cons.IH [OF t1(2)]
  obtain t' where t': "parseAllFramesCoords x pending t1 = Inr t'" "sequencesNonEmpty t'"
    "sequencesExtended t1 t'"
    by blast
  show ?case
    using t1 t' sequencesExtended_trans [OF t1(3) t'(3)] by simp
qed

lemma GetFrames_keeps:
  assumes "sequencesNonEmpty t"
  shows "\<exists>fs t'. GetFrames x t i = Inr (fs, t') \<and> sequencesNonEmpty t'
           \<and> sequencesExtended t t'"
proof -
  from parseFramesCoordsWithID_keeps [OF assms, of x i]
  obtain t1 where "parseFramesCoordsWithID x t i = Inr t1" "sequencesNonEmpty t1"
    "sequencesExtended t t1"
    by blast
  then show ?thesis
    using assms by (auto simp: GetFrames_def split: option.splits)
qed

lemma AllFrames_keeps:
  assumes "sequencesNonEmpty t"
  shows "\<exists>m t'. AllFrames x pending t = Inr (m, t') \<and> sequencesNonEmpty t'
           \<and> sequencesExtended t t'"
proof -
  from parseAllFramesCoords_keeps [OF assms, of x pending]
  obtain t1 where "parseAllFramesCoords x pending t = Inr t1" "sequencesNonEmpty t1"
    "sequencesExtended t t1"
    by blast
  then show ?thesis by (simp add: AllFrames_def)
qed

lemma checkExistenceOfSequence_idem:
  "checkExistenceOfSequence (checkExistenceOfSequence t i n) i n'
     = checkExistenceOfSequence t i n"
  by (simp add: checkExistenceOfSequence_def)

text \<open>
  C8: every sequence stored in \<^verbatim>\<open>sequences\<close> holds at least one frame, and every public
  operation keeps it so: \<^verbatim>\<open>AddFrame\<close>, the typed setters, \<^verbatim>\<open>GetFrames\<close> and
  \<^verbatim>\<open>AllFrames\<close> return without a panic, in a tag whose sequences are all non-empty and
  start with the frames they held before, in the same order. \<^verbatim>\<open>AddFrame\<close> appends its
  frame to the sequence of a routed identifier and changes no other sequence.
  \<^verbatim>\<open>checkExistenceOfSequence\<close> is idempotent: it stores the new sequence only when the
  identifier has none, and is a no-op otherwise.
\<close>

theorem sequences_never_empty:
  assumes "sequencesNonEmpty t"
  shows "(\<exists>t'. AddFrame t i f = Inr t' \<and> sequencesNonEmpty t'
            \<and> (\<forall>k. framesOfSequence t' k =
                  (if k = i \<and> routed t i then framesOfSequence t k @ [f]
                   else framesOfSequence t k)))
       \<and> (\<exists>t'. SetTitle x t s = Inr t' \<and> sequencesNonEmpty t' \<and> sequencesExtended t t')
       \<and> (\<exists>t'. SetArtist x t s = Inr t' \<and> sequencesNonEmpty t' \<and> sequencesExtended t t')
       \<and> (\<exists>t'. SetAlbum x t s = Inr t' \<and> sequencesNonEmpty t' \<and> sequencesExtended t t')
       \<and> (\<exists>t'. SetYear x t s = Inr t' \<and> sequencesNonEmpty t' \<and> sequencesExtended t t')
       \<and> (\<exists>t'. SetGenre x t s = Inr t' \<and> sequencesNonEmpty t' \<and> sequencesExtended t t')
       \<and> (\<exists>fs t'. GetFrames x t i = Inr (fs, t') \<and> sequencesNonEmpty t'
            \<and> sequencesExtended t t')
       \<and> (\<exists>m t'. AllFrames x pending t = Inr (m, t') \<and> sequencesNonEmpty t'
            \<and> sequencesExtended t t')
       \<and> checkExistenceOfSequence (checkExistenceOfSequence t i n) i n'
           = checkExistenceOfSequence t i n
       \<and> (sequences t i \<noteq> None \<longrightarrow> checkExistenceOfSequence t i n = t)
       \<and> (sequences t i = None
            \<longrightarrow> sequences (checkExistenceOfSequence t i n) = (sequences t)(i \<mapsto> n))"
proof -
  obtain t' where t': "AddFrame t i f = Inr t'" "sequencesNonEmpty t'"
    using AddFrame_keeps [OF assms, of i f] by blast
  have add: "\<exists>t'. AddFrame t i f = Inr t' \<and> sequencesNonEmpty t'
            \<and> (\<forall>k. framesOfSequence t' k =
                  (if k = i \<and> routed t i then framesOfSequence t k @ [f]
                   else framesOfSequence t k))"
    using t' framesOfSequence_AddFrame [OF t'(1)] by blast
  have set: "\<exists>t'. AddFrame t j g = Inr t' \<and> sequencesNonEmpty t' \<and> sequencesExtended t t'"
    for j g
    using AddFrame_keeps [OF assms, of j g] by blast
  have check: "sequences t i \<noteq> None \<longrightarrow> checkExistenceOfSequence t i n = t"
    "sequences t i = None
       \<longrightarrow> sequences (checkExistenceOfSequence t i n) = (sequences t)(i \<mapsto> n)"
    by (simp_all add: checkExistenceOfSequence_def)
  show ?thesis
    unfolding SetTitle_def SetArtist_def SetAlbum_def SetYear_def SetGenre_def
    using add set GetFrames_keeps [OF assms, of x i] AllFrames_keeps [OF assms, of x pending]
      checkExistenceOfSequence_idem [of t i n n'] check
    by blast
qed

theorem sequences_never_empty_witness:
  "sequencesNonEmpty pictureTag
   \<and> (\<exists>t'. AddFrame pictureTag ''APIC'' (OtherFramer ''F'') = Inr t' \<and> sequencesNonEmpty t'
        \<and> framesOfSequence t' ''APIC'' = [OtherFramer ''G'', OtherFramer ''F''])
   \<and> sequencesNonEmpty pendingTag
   \<and> (\<exists>t'. GetFrames exampleCollaborators pendingTag ''APIC''
              = Inr ([OtherFramer ''parsed'', OtherFramer ''parsed''], t')
        \<and> sequencesNonEmpty t')"
proof -
  have p: "sequencesNonEmpty pictureTag"
    by (simp add: sequencesNonEmpty_def pictureTag_def)
  have q: "sequencesNonEmpty pendingTag"
    by (simp add: sequencesNonEmpty_def pendingTag_def emptyTag_def)
  have g: "\<exists>t'. GetFrames exampleCollaborators pendingTag ''APIC''
                  = Inr ([OtherFramer ''parsed'', OtherFramer ''parsed''], t')"
    by (simp add: GetFrames_def parseFramesCoordsWithID_def pendingTag_def example_defs
        add_defs)
  note a = sequences_never_empty [OF p, of "''APIC''" "OtherFramer ''F''" exampleCollaborators
      "[]" "[]" newPictureSequence newPictureSequence, THEN conjunct1]
  note b = sequences_never_empty [OF q, of "''APIC''" NilFramer exampleCollaborators
      "[]" "[]" newPictureSequence newPictureSequence]
  from a obtain t1 where t1: "AddFrame pictureTag ''APIC'' (OtherFramer ''F'') = Inr t1"
    "sequencesNonEmpty t1"
    "framesOfSequence t1 ''APIC'' = [OtherFramer ''G'', OtherFramer ''F'']"
    by (auto simp: example_facts)
  from b obtain fs t2 where t2: "GetFrames exampleCollaborators pendingTag ''APIC'' = Inr (fs, t2)"
    "sequencesNonEmpty t2"
    by blast
  from g t2 have "GetFrames exampleCollaborators pendingTag ''APIC''
                  = Inr ([OtherFramer ''parsed'', OtherFramer ''parsed''], t2)"
    by auto
  with p q t1 t2(2) show ?thesis by blast
qed

section \<open>Saving\<close>

lemma parseFrames_fields:
  "parseFrames x t i fcs = Inr t' \<Longrightarrow> file' t' = file' t \<and> originalSize t' = originalSize t"
proof (induction fcs arbitrary: t)
  case Nil
  then show ?case by simp
next
  case (Cons fc fcs)
  obtain t1 where t1: "AddFrame t i (readFrame x i fc) = Inr t1" "file' t1 = file' t"
    "originalSize t1 = originalSize t"
    using AddFrame_fields [of t i "readFrame x i fc"] by blast
  then have "parseFrames x t1 i fcs = Inr t'"
    using Cons.prems by simp
  from Cons.IH [OF this] show ?case using t1 by simp
qed

lemma parseFramesCoordsWithID_fields:
  "parseFramesCoordsWithID x t i = Inr t' \<Longrightarrow>
   file' t' = file' t \<and> originalSize t' = originalSize t"
  by (auto simp: parseFramesCoordsWithID_def split: option.splits sum.splits
      dest: parseFrames_fields)

lemma parseAllFramesCoords_fields:
  "parseAllFramesCoords x pending t = Inr t' \<Longrightarrow>
   file' t' = file' t \<and> originalSize t' = originalSize t"
proof (induction pending arbitrary: t)
  case Nil
  then show ?case by simp
next
  case (Cons i pending)
  then obtain t1 where t1: "parseFramesCoordsWithID x t i = Inr t1"
    "parseAllFramesCoords x pending t1 = Inr t'"
    by (auto split: sum.splits)
  show ?case
    using Cons.IH [OF t1(2)] parseFramesCoordsWithID_fields [OF t1(1)] by simp
qed

lemma formAllFrames_fields:
  "formAllFrames x pending order t = Inr (frames', t1) \<Longrightarrow>
   file' t1 = file' t \<and> originalSize t1 = originalSize t"
  by (auto simp: formAllFrames_def writeFrames_def AllFrames_def
      split: sum.splits prod.splits dest: parseAllFramesCoords_fields)

lemma TempFile_tmp:
  "TempFile e fs =
     (case failure e CreateTemp of
        Some err \<Rightarrow> Inl err
      | None \<Rightarrow>
          if paths fs (tempName e) \<noteq> None then Inl ''file exists''
          else Inr (tmpFile fs e 0,
                    tmpFs fs ((paths fs)(tempName e \<mapsto> length (inodes fs))) [] 384))"
  by (cases fs) (simp add: TempFile_def tmpFile_def tmpFs_def split: option.splits)

lemma File_Write_tmp:
  "off = length c \<Longrightarrow>
   File_Write e st (tmpFile fs e off) b (tmpFs fs P c m) =
     (case failure e st of
        Some err \<Rightarrow>
          (Some err, tmpFile fs e (off + length (take (written e st) b)),
           tmpFs fs P (c @ take (written e st) b) m)
      | None \<Rightarrow> (None, tmpFile fs e (off + length b), tmpFs fs P (c @ b) m))"
  by (simp add: File_Write_def tmpFile_def tmpFs_def writeAt_def Let_def split: option.splits)

lemma io_Copy_tmp:
  "off = length c \<Longrightarrow> fileNode src < length (inodes fs) \<Longrightarrow>
   io_Copy e (tmpFile fs e off) src (tmpFs fs P c m) =
     (if fileClosed src then (Some ''file already closed'', tmpFile fs e off, src, tmpFs fs P c m)
      else
        (let rest = drop (fileOffset src) (content (inodes fs ! fileNode src))
         in case failure e CopyPayload of
              Some err \<Rightarrow>
                (Some err, tmpFile fs e (off + length (take (written e CopyPayload) rest)),
                 src\<lparr>fileOffset := fileOffset src + length (take (written e CopyPayload) rest)\<rparr>,
                 tmpFs fs P (c @ take (written e CopyPayload) rest) m)
            | None \<Rightarrow>
                (None, tmpFile fs e (off + length rest),
                 src\<lparr>fileOffset := fileOffset src + length rest\<rparr>,
                 tmpFs fs P (c @ rest) m)))"
  by (simp add: io_Copy_def File_Write_def tmpFile_def tmpFs_def writeAt_def Let_def nth_append
      split: option.splits)

lemma File_Stat_tmp:
  "fileNode src < length (inodes fs) \<Longrightarrow>
   File_Stat e src (tmpFs fs P c m) =
     (case failure e StatOriginal of
        Some err \<Rightarrow> Inl err
      | None \<Rightarrow>
          if fileClosed src then Inl ''file already closed''
          else Inr (mode (inodes fs ! fileNode src)))"
  by (simp add: File_Stat_def tmpFs_def nth_append split: option.splits)

lemma File_Chmod_tmp:
  "File_Chmod e (tmpFile fs e off) m' (tmpFs fs P c m) =
     (case failure e ChmodNew of
        Some err \<Rightarrow> (Some err, tmpFs fs P c m)
      | None \<Rightarrow> (None, tmpFs fs P c m'))"
  by (simp add: File_Chmod_def tmpFile_def tmpFs_def split: option.splits)

lemma os_Rename_tmp:
  "P (tempName e) = Some n \<Longrightarrow>
   os_Rename e (tempName e) p (tmpFs fs P c m) =
     (case failure e RenameNew of
        Some err \<Rightarrow> (Some err, tmpFs fs P c m)
      | None \<Rightarrow> (None, tmpFs fs ((P(tempName e := None))(p \<mapsto> n)) c m))"
  by (simp add: os_Rename_def tmpFs_def split: option.splits)

lemma tmpFile_sel [simp]:
  "fileName (tmpFile fs e off) = tempName e"
  "fileNode (tmpFile fs e off) = length (inodes fs)"
  "fileOffset (tmpFile fs e off) = off"
  "fileClosed (tmpFile fs e off) = False"
  by (simp_all add: tmpFile_def)

lemma tmpFs_sel [simp]:
  "paths (tmpFs fs P c m) = P"
  "inodes (tmpFs fs P c m) = inodes fs @ [\<lparr>content = c, mode = m\<rparr>]"
  by (simp_all add: tmpFs_def)


lemmas tmp_rules =
  TempFile_tmp File_Write_tmp io_Copy_tmp File_Stat_tmp File_Chmod_tmp os_Rename_tmp

lemma formFrame_Inr:
  "formFrame x i f = Inr b \<Longrightarrow> b = frameBlock x i f"
  by (auto simp: formFrame_def frameBlock_def writeFrameHeader_def bytesbufferpool_Get_def
      Let_def split: if_splits)

lemma writeFramesOf_blocks:
  "writeFramesOf x i fs w = Inr w' \<Longrightarrow> w' = w @ concat (map (frameBlock x i) fs)"
proof (induction fs arbitrary: w)
  case Nil
  then show ?case by simp
next
  case (Cons f fs)
  then obtain b where b: "formFrame x i f = Inr b" "writeFramesOf x i fs (w @ b) = Inr w'"
    by (auto split: sum.splits)
  from Cons.IH [OF b(2)] formFrame_Inr [OF b(1)] show ?case by simp
qed

lemma writeFramesRange_blocks:
  "writeFramesRange x m order w = Inr w' \<Longrightarrow>
   w' = w @ concat (map (\<lambda>i. concat (map (frameBlock x i)
                                  (case m i of None \<Rightarrow> [] | Some fs \<Rightarrow> fs))) order)"
proof (induction order arbitrary: w)
  case Nil
  then show ?case by simp
next
  case (Cons i order)
  show ?case
  proof (cases "m i")
    case None
    then show ?thesis using Cons by simp
  next
    case (Some fs)
    then obtain w1 where w1: "writeFramesOf x i fs w = Inr w1"
      "writeFramesRange x m order w1 = Inr w'"
      using Cons.prems by (auto split: sum.splits)
    from Cons.IH [OF w1(2)] writeFramesOf_blocks [OF w1(1)] Some show ?thesis by simp
  qed
qed

lemma AllFrames_framesUnder:
  "AllFrames x pending t = Inr (m, t1) \<Longrightarrow>
   (case m i of None \<Rightarrow> [] | Some fs \<Rightarrow> fs) = framesUnder t1 i"
  by (auto simp: AllFrames_def framesUnder_def framesOfSequence_def
      split: sum.splits option.splits)

lemma formAllFrames_blocks:
  assumes "formAllFrames x pending order t = Inr (frames', t1)"
  shows "frames' = blocksOf x t1 order"
proof -
  from assms obtain m where m: "AllFrames x pending t = Inr (m, t1)"
    "writeFramesRange x m order [] = Inr frames'"
    by (auto simp: formAllFrames_def writeFrames_def bytesbufferpool_Get_def
        split: sum.splits prod.splits)
  have "(\<lambda>i. concat (map (frameBlock x i) (case m i of None \<Rightarrow> [] | Some fs \<Rightarrow> fs)))
          = (\<lambda>i. concat (map (frameBlock x i) (framesUnder t1 i)))"
    using AllFrames_framesUnder [OF m(1)] by simp
  with writeFramesRange_blocks [OF m(2)] show ?thesis by (simp add: blocksOf_def)
qed

lemma parseAllFramesCoords_nothing_pending:
  "framesCoords t = Map.empty \<Longrightarrow> parseAllFramesCoords x pending t = Inr t"
  by (induction pending) (simp_all add: parseFramesCoordsWithID_def)

lemma formAllFrames_nothing_pending:
  assumes "framesCoords t = Map.empty"
    and "formAllFrames x pending order t = Inr (frames', t1)"
  shows "t1 = t"
  using assms parseAllFramesCoords_nothing_pending [OF assms(1), of x pending]
  by (auto simp: formAllFrames_def writeFrames_def AllFrames_def split: sum.splits)

text \<open>Every run of \<^verbatim>\<open>Save\<close> that gets past forming the frames ends in one of three
  states of the disk: untouched; with the temporary file added under its own name; or,
  when no call failed, with the finished temporary file under the name of the tag's
  file.\<close>

lemma Save_shape:
  assumes "formAllFrames x pending order t = Inr (frames', t1)"
    and "fileNode (file' t1) < length (inodes fs)"
  shows "\<exists>res t' fs'. Save x pending order e t fs = Inr (res, t', fs')
       \<and> ((res \<noteq> None \<and> fs' = fs)
          \<or> (res \<noteq> None \<and> paths fs (tempName e) = None
               \<and> (\<exists>c m. fs' = tmpFs fs ((paths fs)(tempName e \<mapsto> length (inodes fs))) c m))
          \<or> (res = None \<and> paths fs (tempName e) = None
               \<and> fileNode (file' t') = length (inodes fs)
               \<and> fileName (file' t') = tempName e
               \<and> fs' = tmpFs fs
                    (((paths fs)(tempName e := None))
                       (fileName (file' t1) \<mapsto> length (inodes fs)))
                    (formTagHeader x (FormSize x (int (length frames'))) @ frames'
                      @ drop (nat (originalSize t1)) (content (inodes fs ! fileNode (file' t1))))
                    (mode (inodes fs ! fileNode (file' t1)))))"
  using assms
  by (auto simp: Save_def tmp_rules File_Seek_def File_Close_def Let_def
      split: option.splits)

lemma Save_returns_firstFailure:
  assumes "formAllFrames x pending order t = Inr (frames', t1)"
    and "fileNode (file' t1) < length (inodes fs)"
    and "paths fs (tempName e) = None"
    and "\<not> fileClosed (file' t1)"
    and "0 \<le> originalSize t1"
  shows "\<exists>t' fs'. Save x pending order e t fs = Inr (firstFailure e, t', fs')"
  using assms
  by (auto simp: Save_def tmp_rules File_Seek_def File_Close_def Let_def firstFailure_def
      split: option.splits)

lemma Save_formed:
  assumes "Save x pending order e t fs = Inr r"
  shows "\<exists>frames' t1. formAllFrames x pending order t = Inr (frames', t1)"
proof (cases "formAllFrames x pending order t")
  case (Inl p)
  then show ?thesis using assms by (simp add: Save_def)
next
  case (Inr a)
  then show ?thesis by (cases a) simp
qed

text \<open>What the three states mean for the file under the tag's path and for the files
  that were on the disk.\<close>

lemma Save_outcome:
  assumes op: "opened fs (file' t)"
    and run: "Save x pending order e t fs = Inr (res, t', fs')"
    and fa: "formAllFrames x pending order t = Inr (frames', t1)"
  shows "(res \<noteq> None \<longrightarrow> fileAt fs' (fileName (file' t)) = fileAt fs (fileName (file' t)))"
    and "(res = None \<longrightarrow>
          fileAt fs' (fileName (file' t)) =
            Some \<lparr>content = formTagHeader x (FormSize x (int (length frames'))) @ frames'
                     @ drop (nat (originalSize t)) (content (inodes fs ! fileNode (file' t))),
                  mode = mode (inodes fs ! fileNode (file' t))\<rparr>
          \<and> fileNode (file' t') < length (inodes fs')
          \<and> fileAt fs' (fileName (file' t)) = Some (inodes fs' ! fileNode (file' t')))"
    and "take (length (inodes fs)) (inodes fs') = inodes fs"
    and "\<forall>p. p \<noteq> tempName e \<and> p \<noteq> fileName (file' t) \<longrightarrow> paths fs' p = paths fs p"
    and "(res = None \<longrightarrow> fileName (file' t') = tempName e \<and> paths fs' (tempName e) = None)"
proof -
  have same: "file' t1 = file' t" "originalSize t1 = originalSize t"
    using formAllFrames_fields [OF fa] by simp_all
  have node: "paths fs (fileName (file' t)) = Some (fileNode (file' t))"
    "fileNode (file' t) < length (inodes fs)"
    using op by (simp_all add: opened_def)
  have valid: "fileNode (file' t1) < length (inodes fs)"
    using node same by simp
  from Save_shape [OF fa valid, of e] run
  consider (untouched) "res \<noteq> None" "fs' = fs"
    | (temp) c m where "res \<noteq> None" "paths fs (tempName e) = None"
        "fs' = tmpFs fs ((paths fs)(tempName e \<mapsto> length (inodes fs))) c m"
    | (renamed) "res = None" "paths fs (tempName e) = None"
        "fileNode (file' t') = length (inodes fs)"
        "fileName (file' t') = tempName e"
        "fs' = tmpFs fs
           (((paths fs)(tempName e := None))(fileName (file' t) \<mapsto> length (inodes fs)))
           (formTagHeader x (FormSize x (int (length frames'))) @ frames'
             @ drop (nat (originalSize t)) (content (inodes fs ! fileNode (file' t))))
           (mode (inodes fs ! fileNode (file' t)))"
    unfolding same by auto
  then have "(res \<noteq> None \<longrightarrow> fileAt fs' (fileName (file' t)) = fileAt fs (fileName (file' t)))
      \<and> (res = None \<longrightarrow>
          fileAt fs' (fileName (file' t)) =
            Some \<lparr>content = formTagHeader x (FormSize x (int (length frames'))) @ frames'
                     @ drop (nat (originalSize t)) (content (inodes fs ! fileNode (file' t))),
                  mode = mode (inodes fs ! fileNode (file' t))\<rparr>
          \<and> fileNode (file' t') < length (inodes fs')
          \<and> fileAt fs' (fileName (file' t)) = Some (inodes fs' ! fileNode (file' t')))
      \<and> take (length (inodes fs)) (inodes fs') = inodes fs
      \<and> (\<forall>p. p \<noteq> tempName e \<and> p \<noteq> fileName (file' t) \<longrightarrow> paths fs' p = paths fs p)
      \<and> (res = None \<longrightarrow> fileName (file' t') = tempName e \<and> paths fs' (tempName e) = None)"
  proof cases
    case untouched
    then show ?thesis by auto
  next
    case temp
    then have "tempName e \<noteq> fileName (file' t)"
      using node by auto
    then show ?thesis
      using temp node by (auto simp: fileAt_def nth_append)
  next
    case renamed
    then have "tempName e \<noteq> fileName (file' t)"
      using node by auto
    then show ?thesis
      using renamed by (simp add: fileAt_def)
  qed
  then show "(res \<noteq> None \<longrightarrow> fileAt fs' (fileName (file' t)) = fileAt fs (fileName (file' t)))"
    and "(res = None \<longrightarrow>
          fileAt fs' (fileName (file' t)) =
            Some \<lparr>content = formTagHeader x (FormSize x (int (length frames'))) @ frames'
                     @ drop (nat (originalSize t)) (content (inodes fs ! fileNode (file' t))),
                  mode = mode (inodes fs ! fileNode (file' t))\<rparr>
          \<and> fileNode (file' t') < length (inodes fs')
          \<and> fileAt fs' (fileName (file' t)) = Some (inodes fs' ! fileNode (file' t')))"
    and "take (length (inodes fs)) (inodes fs') = inodes fs"
    and "\<forall>p. p \<noteq> tempName e \<and> p \<noteq> fileName (file' t) \<longrightarrow> paths fs' p = paths fs p"
    and "(res = None \<longrightarrow> fileName (file' t') = tempName e \<and> paths fs' (tempName e) = None)"
    by blast+
qed

text \<open>After a run that returns no error the tag's handle is open on the new file and
  still carries the temporary name, which names nothing any more: the tag is no longer in
  the state \<open>opened\<close> that the theorems on \<^verbatim>\<open>Save\<close> start from.\<close>

lemma Save_handle_keeps_temporary_name:
  assumes "opened fs (file' t)"
    and "Save x pending order e t fs = Inr (None, t', fs')"
  shows "fileName (file' t') = tempName e \<and> paths fs' (tempName e) = None
       \<and> \<not> opened fs' (file' t')"
proof -
  from Save_formed [OF assms(2)]
  obtain frames' t1 where "formAllFrames x pending order t = Inr (frames', t1)"
    by blast
  from Save_outcome(5) [OF assms this]
  show ?thesis by (simp add: opened_def)
qed

lemma example_run:
  "opened exampleDisk (file' titledTag)"
  "formAllFrames exampleCollaborators [] [''TIT2''] titledTag
     = Inr ([84, 73, 84, 50, 0, 0, 0, 4, 0, 0, 3, 70, 111, 111], titledTag)"
  "paths exampleDisk (tempName quiet) = None" "paths exampleDisk (tempName diskFull) = None"
  "\<not> fileClosed (file' titledTag)" "originalSize titledTag = 3"
  "fileNode (file' titledTag) = 0" "fileName (file' titledTag) = ''song.mp3''"
  "inodes exampleDisk = [\<lparr>content = [73, 68, 51, 255, 251, 144], mode = 420\<rparr>]"
  "firstFailure quiet = None" "firstFailure diskFull = Some ''no space left on device''"
  by (simp_all add: opened_def exampleDisk_def titledTag_def emptyTag_def exampleFile_def
      quiet_def diskFull_def firstFailure_def formAllFrames_def writeFrames_def AllFrames_def
      formFrame_def writeFrameHeader_def bytesbufferpool_Get_def exampleCollaborators_def
      bytesOf_def Let_def)

text \<open>
  For a tag whose file handle is open on the file at its path, as after opening it: a run
  of \<^verbatim>\<open>Save\<close> that returns an error leaves the file at that path as it was; a run that
  returns no error leaves there the new header, the frame buffer, and the bytes of the old
  file from \<^verbatim>\<open>originalSize\<close> on, with the old mode. The frame buffer is the blocks of
  the frames the tag holds, once the pending ones are materialized, under the identifiers
  the loop of \<^verbatim>\<open>writeFrames\<close> visits, in that order. No run changes a file that was on
  the disk, and no run touches a path other than the temporary one and, by the final
  rename, the tag's. When the temporary name is free, the handle is not closed and
  \<^verbatim>\<open>originalSize\<close> is not negative, \<^verbatim>\<open>Save\<close> returns the error of the first call the
  operating system lets fail, and no error when it lets none fail.
\<close>

theorem Save_opened_all_or_nothing:
  assumes "opened fs (file' t)"
    and "Save x pending order e t fs = Inr (res, t', fs')"
  shows "(res \<noteq> None \<longrightarrow> fileAt fs' (fileName (file' t)) = fileAt fs (fileName (file' t)))
       \<and> (res = None \<longrightarrow>
            (\<exists>frames' t1. formAllFrames x pending order t = Inr (frames', t1)
               \<and> frames' = blocksOf x t1 order
               \<and> (framesCoords t = Map.empty \<longrightarrow> t1 = t)
               \<and> fileAt fs' (fileName (file' t)) =
                   Some \<lparr>content = formTagHeader x (FormSize x (int (length frames'))) @ frames'
                            @ drop (nat (originalSize t))
                                (content (inodes fs ! fileNode (file' t))),
                         mode = mode (inodes fs ! fileNode (file' t))\<rparr>))
       \<and> take (length (inodes fs)) (inodes fs') = inodes fs
       \<and> (\<forall>p. p \<noteq> tempName e \<and> p \<noteq> fileName (file' t) \<longrightarrow> paths fs' p = paths fs p)
       \<and> (paths fs (tempName e) = None \<and> \<not> fileClosed (file' t) \<and> 0 \<le> originalSize t
            \<longrightarrow> res = firstFailure e)"
proof -
  from Save_formed [OF assms(2)]
  obtain frames' t1 where fa: "formAllFrames x pending order t = Inr (frames', t1)"
    by blast
  note out = Save_outcome [OF assms fa]
  have pin: "frames' = blocksOf x t1 order" "framesCoords t = Map.empty \<longrightarrow> t1 = t"
    using formAllFrames_blocks [OF fa] formAllFrames_nothing_pending [OF _ fa] by blast+
  have "res = firstFailure e"
    if wf: "paths fs (tempName e) = None" "\<not> fileClosed (file' t)" "0 \<le> originalSize t"
  proof -
    have same: "file' t1 = file' t" "originalSize t1 = originalSize t"
      using formAllFrames_fields [OF fa] by simp_all
    have "fileNode (file' t1) < length (inodes fs)"
      using assms(1) same by (simp add: opened_def)
    from Save_returns_firstFailure [OF fa this, of e] wf same assms(2)
    show ?thesis by auto
  qed
  with out fa pin show ?thesis by blast
qed

theorem Save_opened_all_or_nothing_example:
  "opened exampleDisk (file' titledTag)
   \<and> (\<exists>t' fs'. Save exampleCollaborators [] [''TIT2''] quiet titledTag exampleDisk
                  = Inr (None, t', fs')
        \<and> fileAt fs' ''song.mp3'' =
            Some \<lparr>content = [73, 68, 51, 0, 0, 0, 14,
                              84, 73, 84, 50, 0, 0, 0, 4, 0, 0, 3, 70, 111, 111,
                              255, 251, 144],
                  mode = 420\<rparr>)
   \<and> (\<exists>t' fs'. Save exampleCollaborators [] [''TIT2''] diskFull titledTag exampleDisk
                  = Inr (Some ''no space left on device'', t', fs')
        \<and> fileAt fs' ''song.mp3'' =
            Some \<lparr>content = [73, 68, 51, 255, 251, 144], mode = 420\<rparr>)"
proof -
  note r = example_run
  have valid: "fileNode (file' titledTag) < length (inodes exampleDisk)"
    by (simp add: r)
  have wf: "\<not> fileClosed (file' titledTag)" "0 \<le> originalSize titledTag"
    by (simp_all add: r)
  have hdr: "formTagHeader exampleCollaborators (FormSize exampleCollaborators 14)
               = [73, 68, 51, 0, 0, 0, 14]"
    by (simp add: exampleCollaborators_def)
  have before: "fileAt exampleDisk ''song.mp3''
                  = Some \<lparr>content = [73, 68, 51, 255, 251, 144], mode = 420\<rparr>"
    by (simp add: fileAt_def exampleDisk_def)
  from Save_returns_firstFailure [OF r(2) valid r(3) wf]
  obtain t' fs' where ok: "Save exampleCollaborators [] [''TIT2''] quiet titledTag exampleDisk
                             = Inr (None, t', fs')"
    by (auto simp: r)
  from Save_returns_firstFailure [OF r(2) valid r(4) wf]
  obtain t'' fs'' where ko: "Save exampleCollaborators [] [''TIT2''] diskFull titledTag exampleDisk
                               = Inr (Some ''no space left on device'', t'', fs'')"
    by (auto simp: r)
  have "fileAt fs' ''song.mp3'' =
          Some \<lparr>content = [73, 68, 51, 0, 0, 0, 14,
                            84, 73, 84, 50, 0, 0, 0, 4, 0, 0, 3, 70, 111, 111,
                            255, 251, 144],
                mode = 420\<rparr>"
    using Save_opened_all_or_nothing [OF r(1) ok] by (simp add: r hdr)
  moreover have "fileAt fs'' ''song.mp3''
                   = Some \<lparr>content = [73, 68, 51, 255, 251, 144], mode = 420\<rparr>"
    using Save_opened_all_or_nothing [OF r(1) ko] by (simp add: r before)
  ultimately show ?thesis using r(1) ok ko by blast
qed

lemmas save_defs =
  Save_def TempFile_def File_Write_def File_Seek_def io_Copy_def File_Stat_def File_Chmod_def
  os_Rename_def File_Close_def writeAt_def fileAt_def formAllFrames_def writeFrames_def
  AllFrames_def formFrame_def writeFrameHeader_def bytesbufferpool_Get_def bytesOf_def Let_def

text \<open>
  C1: \<^verbatim>\<open>Save\<close> is to leave, whenever it returns no error, the frames the tag holds in
  memory in the file at the original path. It does not for a tag it has written before:
  the handle \<^verbatim>\<open>Save\<close> stores in the tag carries the temporary name of that run, and
  \<^verbatim>\<open>originalSize\<close> stays that of the file the tag was opened on. Here a tag opened on
  \<^verbatim>\<open>song.mp3\<close> with the title \<open>Foo\<close> is saved, its title set to \<open>Bar\<close>, and saved again,
  no call failing. The second \<^verbatim>\<open>Save\<close> returns no error; the file at \<^verbatim>\<open>song.mp3\<close> is
  what the first one wrote, still with the title \<open>Foo\<close>; and the new file lies under the
  old temporary name, with eighteen bytes of the first run's tag between the new frame and
  the audio.
\<close>

theorem Save_twice_leaves_stale_file:
  "\<exists>t1 fs1 t2 t3 fs2.
     Save exampleCollaborators [] [''TIT2''] quiet titledTag exampleDisk = Inr (None, t1, fs1)
   \<and> SetTitle exampleCollaborators t1 ''Bar'' = Inr t2
   \<and> frames t2 ''TIT2'' = Some (TextFramer \<lparr>Encoding = 3, Text = ''Bar''\<rparr>)
   \<and> Save exampleCollaborators [] [''TIT2''] quietAgain t2 fs1 = Inr (None, t3, fs2)
   \<and> fileAt fs2 ''song.mp3'' = fileAt fs1 ''song.mp3''
   \<and> fileAt fs2 ''song.mp3'' =
       Some \<lparr>content = [73, 68, 51, 0, 0, 0, 14,
                         84, 73, 84, 50, 0, 0, 0, 4, 0, 0, 3, 70, 111, 111,
                         255, 251, 144],
             mode = 420\<rparr>
   \<and> fileAt fs2 ''tmp001'' =
       Some \<lparr>content = [73, 68, 51, 0, 0, 0, 14,
                         84, 73, 84, 50, 0, 0, 0, 4, 0, 0, 3, 66, 97, 114,
                         0, 0, 0, 14, 84, 73, 84, 50, 0, 0, 0, 4, 0, 0, 3, 70, 111, 111,
                         255, 251, 144],
             mode = 420\<rparr>"
  by (simp add: save_defs SetTitle_def add_defs titledTag_def emptyTag_def exampleIDs_def
      exampleFile_def exampleDisk_def quiet_def quietAgain_def exampleCollaborators_def)

text \<open>
  C2: when the file the tag holds open consists of a tag region of \<^verbatim>\<open>originalSize\<close>
  bytes followed by the payload, a run of \<^verbatim>\<open>Save\<close> that returns no error leaves at the
  tag's path a file that is the new header, then the frame buffer, then the payload,
  whatever the length of the frame buffer: its last bytes, as many as the payload has, are
  the payload. The tag's new handle is open on that file.
\<close>

theorem Save_preserves_payload:
  assumes "opened fs (file' t)"
    and "content (inodes fs ! fileNode (file' t)) = tagRegion @ payload"
    and "originalSize t = int (length tagRegion)"
    and "Save x pending order e t fs = Inr (None, t', fs')"
  shows "\<exists>frames' t1 d. formAllFrames x pending order t = Inr (frames', t1)
       \<and> fileAt fs' (fileName (file' t)) = Some d
       \<and> content d = formTagHeader x (FormSize x (int (length frames'))) @ frames' @ payload
       \<and> drop (length (content d) - length payload) (content d) = payload
       \<and> fileNode (file' t') < length (inodes fs') \<and> inodes fs' ! fileNode (file' t') = d"
proof -
  from Save_formed [OF assms(4)]
  obtain frames' t1 where fa: "formAllFrames x pending order t = Inr (frames', t1)"
    by blast
  let ?d = "\<lparr>content = formTagHeader x (FormSize x (int (length frames'))) @ frames' @ payload,
             mode = mode (inodes fs ! fileNode (file' t))\<rparr>"
  have rest: "drop (nat (originalSize t)) (content (inodes fs ! fileNode (file' t))) = payload"
    using assms(2,3) by simp
  have "fileAt fs' (fileName (file' t)) = Some ?d
      \<and> fileNode (file' t') < length (inodes fs')
      \<and> fileAt fs' (fileName (file' t)) = Some (inodes fs' ! fileNode (file' t'))"
    using Save_outcome(2) [OF assms(1) assms(4) fa, unfolded rest] by blast
  then have d: "fileAt fs' (fileName (file' t)) = Some ?d"
    "fileNode (file' t') < length (inodes fs')"
    "fileAt fs' (fileName (file' t)) = Some (inodes fs' ! fileNode (file' t'))"
    by blast+
  then have "inodes fs' ! fileNode (file' t') = ?d"
    by simp
  moreover have "drop (length (content ?d) - length payload) (content ?d) = payload"
    by simp
  ultimately show ?thesis using fa d by auto
qed

theorem Save_preserves_payload_witness:
  "opened exampleDisk (file' titledTag)
   \<and> content (inodes exampleDisk ! fileNode (file' titledTag)) = [73, 68, 51] @ [255, 251, 144]
   \<and> originalSize titledTag = int (length [73, 68, 51 :: byte])
   \<and> (\<exists>t' fs' d. Save exampleCollaborators [] [''TIT2''] quiet titledTag exampleDisk
                    = Inr (None, t', fs')
        \<and> fileAt fs' ''song.mp3'' = Some d
        \<and> drop (length (content d) - 3) (content d) = [255, 251, 144])"
proof -
  note r = example_run
  have valid: "fileNode (file' titledTag) < length (inodes exampleDisk)"
    by (simp add: r)
  have wf: "\<not> fileClosed (file' titledTag)" "0 \<le> originalSize titledTag"
    by (simp_all add: r)
  have c: "content (inodes exampleDisk ! fileNode (file' titledTag))
             = [73, 68, 51] @ [255, 251, 144]"
    by (simp add: r)
  have s: "originalSize titledTag = int (length [73, 68, 51 :: byte])"
    by (simp add: r)
  from Save_returns_firstFailure [OF r(2) valid r(3) wf]
  obtain t' fs' where ok: "Save exampleCollaborators [] [''TIT2''] quiet titledTag exampleDisk
                             = Inr (None, t', fs')"
    by (auto simp: r)
  from Save_preserves_payload [OF r(1) c s ok]
  obtain d where "fileAt fs' ''song.mp3'' = Some d"
    "drop (length (content d) - 3) (content d) = [255, 251, 144]"
    by (auto simp: r)
  then show ?thesis using r(1) c s ok by blast
qed

end
